theory Spec2Isabelle
  imports Complex_Main "HOL-Library.AList"
begin

section \<open>JavaScript numbers\<close>

text \<open>
  A JavaScript \<open>number\<close> is an IEEE 754 double. \<open>Num x\<close> is the finite double of value
  \<open>x\<close>, beside the two infinities and \<open>NaN\<close>. The sign of a zero is not kept: the code
  below only subtracts, adds, multiplies, takes square roots, compares and prints its
  numbers, \<open>-0\<close> behaves as \<open>0\<close> in each of these and is printed as \<open>"0"\<close>.
\<close>

datatype number = Num real | PlusInfinity | MinusInfinity | NotANumber

text \<open>
  \<open>bitlen n\<close> is the length of the binary numeral of \<open>n\<close>, \<open>pow2 e\<close> is the power of 2 for an
  integer \<open>e\<close> and \<open>ilog2 x\<close> is the exponent of \<open>x > 0\<close>: the \<open>e\<close> with
  \<open>pow2 e \<le> x < pow2 (e + 1)\<close>.
\<close>

function bitlen :: "int \<Rightarrow> int" where
  "bitlen n = (if n \<le> 0 then 0 else 1 + bitlen (n div 2))"
  by pat_completeness auto
termination by (relation "measure nat") auto

declare bitlen.simps [simp del]

definition pow2 :: "int \<Rightarrow> real" where
  "pow2 e = (if 0 \<le> e then 2 ^ nat e else 1 / 2 ^ nat (- e))"

definition ilog2 :: "real \<Rightarrow> int" where
  "ilog2 x = (if 1 \<le> x then bitlen \<lfloor>x\<rfloor> - 1 else - bitlen (\<lceil>1 / x\<rceil> - 1))"

text \<open>Rounding to the nearest integer, a tie to the even one.\<close>

definition roundHalfEven :: "real \<Rightarrow> int" where
  "roundHalfEven q =
     (let n = \<lfloor>q\<rfloor>; r = q - of_int n
      in if r < 1 / 2 then n else if 1 / 2 < r then n + 1 else if even n then n else n + 1)"

text \<open>
  The Number value for \<open>x\<close> (ECMAScript, 6.1.6.1): the double nearest to \<open>x\<close>, a tie going
  to the even significand. The significand has 53 bits, so the last place of \<open>x\<close> is
  \<open>pow2 e\<close> with \<open>e = ilog2 \<bar>x\<bar> - 52\<close>, and not below \<open>pow2 (- 1074)\<close>, the last place
  of the subnormal numbers; a result that reaches \<open>pow2 1024\<close> is infinite.
\<close>

definition numberValue :: "real \<Rightarrow> number" where
  "numberValue x =
     (if x = 0 then Num 0
      else
        (let e = max (ilog2 \<bar>x\<bar> - 52) (- 1074);
             y = of_int (roundHalfEven (\<bar>x\<bar> / pow2 e)) * pow2 e
         in if pow2 1024 \<le> y then (if 0 < x then PlusInfinity else MinusInfinity)
            else Num (if 0 < x then y else - y)))"

text \<open>
  The operators \<open>-\<close> (unary), \<open>+\<close>, \<open>-\<close>, \<open>*\<close>, \<open><\<close> and \<open><=\<close> on numbers: the exact result,
  rounded by \<^const>\<open>numberValue\<close>; a comparison with \<open>NaN\<close> is false.
\<close>

fun negate :: "number \<Rightarrow> number" where
  "negate (Num x) = Num (- x)"
| "negate PlusInfinity = MinusInfinity"
| "negate MinusInfinity = PlusInfinity"
| "negate NotANumber = NotANumber"

fun add :: "number \<Rightarrow> number \<Rightarrow> number" where
  "add (Num x) (Num y) = numberValue (x + y)"
| "add NotANumber b = NotANumber"
| "add a NotANumber = NotANumber"
| "add PlusInfinity MinusInfinity = NotANumber"
| "add MinusInfinity PlusInfinity = NotANumber"
| "add PlusInfinity b = PlusInfinity"
| "add MinusInfinity b = MinusInfinity"
| "add (Num x) b = b"

definition subtract :: "number \<Rightarrow> number \<Rightarrow> number" where
  "subtract a b = add a (negate b)"

fun multiply :: "number \<Rightarrow> number \<Rightarrow> number" where
  "multiply (Num x) (Num y) = numberValue (x * y)"
| "multiply NotANumber b = NotANumber"
| "multiply a NotANumber = NotANumber"
| "multiply (Num x) b = (if x = 0 then NotANumber else if 0 < x then b else negate b)"
| "multiply a (Num y) = (if y = 0 then NotANumber else if 0 < y then a else negate a)"
| "multiply PlusInfinity b = b"
| "multiply MinusInfinity b = negate b"

fun isLess :: "number \<Rightarrow> number \<Rightarrow> bool" where
  "isLess (Num x) (Num y) = (x < y)"
| "isLess (Num x) PlusInfinity = True"
| "isLess (Num x) MinusInfinity = False"
| "isLess MinusInfinity (Num y) = True"
| "isLess MinusInfinity PlusInfinity = True"
| "isLess MinusInfinity MinusInfinity = False"
| "isLess PlusInfinity b = False"
| "isLess NotANumber b = False"
| "isLess a NotANumber = False"

definition isLessEq :: "number \<Rightarrow> number \<Rightarrow> bool" where
  "isLessEq a b \<longleftrightarrow> a \<noteq> NotANumber \<and> b \<noteq> NotANumber \<and> \<not> isLess b a"

text \<open>
  \<open>Math.sqrt\<close> and \<open>Math.pow(x, 2)\<close>. ECMAScript leaves the precision of the two to the
  implementation; they are taken as the engines compute them, correctly rounded: the
  square root of IEEE 754, and the product \<open>x * x\<close>.

  \<open>isqrt n\<close> is the integer square root. For the square root of \<open>x > 0\<close> the argument is
  scaled by a power of 4 to \<open>y \<ge> pow2 108\<close>, so that \<open>s = isqrt \<lfloor>y\<rfloor>\<close> has at least 55 bits:
  the numbers at which the rounding of \<open>sqrt y\<close> to 53 bits changes are then even
  integers, and a root that is not the integer \<open>s\<close> lies strictly between \<open>s\<close> and
  \<open>s + 1\<close> and is rounded as \<open>s + 1/2\<close> is.
\<close>

function isqrt :: "int \<Rightarrow> int" where
  "isqrt n = (if n < 2 then n
              else (let r = 2 * isqrt (n div 4) in if (r + 1)\<^sup>2 \<le> n then r + 1 else r))"
  by pat_completeness auto
termination by (relation "measure nat") auto

declare isqrt.simps [simp del]

fun Math_sqrt :: "number \<Rightarrow> number" where
  "Math_sqrt (Num x) =
     (if x < 0 then NotANumber
      else if x = 0 then Num 0
      else
        (let k = (109 - ilog2 x) div 2;
             y = x * pow2 (2 * k);
             s = isqrt \<lfloor>y\<rfloor>
         in numberValue ((of_int s + (if of_int (s\<^sup>2) = y then 0 else 1 / 2)) * pow2 (- k))))"
| "Math_sqrt PlusInfinity = PlusInfinity"
| "Math_sqrt MinusInfinity = NotANumber"
| "Math_sqrt NotANumber = NotANumber"

definition Math_pow2 :: "number \<Rightarrow> number" where
  "Math_pow2 x = multiply x x"

section \<open>The in-memory repository (server/storage.ts, class MemStorage)\<close>

text \<open>
  Conventions of the embedding.
  \<^item> A \<open>decimal\<close> column holds a string that the code only ever reads through
    \<open>parseFloat\<close> and writes through \<open>toString\<close>; the model stores the
    \<^typ>\<open>number\<close> that \<open>parseFloat\<close> reads from it: \<^term>\<open>numberValue d\<close> for a
    decimal literal that denotes \<open>d\<close> (of at most 20 significant digits, beyond which
    ECMAScript lets the implementation choose), \<^const>\<open>NotANumber\<close> for a string that
    starts with no number. \<open>toString\<close> prints a number as the shortest decimal that is
    read back as the same number, so writing a number and reading it again is the
    identity of the model. The wallet balance, the amount and the centre of a blind date
    are such columns.
  \<^item> A latitude or longitude of a user is an \<open>option\<close> of such a column: \<open>None\<close> is
    \<open>null\<close> and the empty string, the two values for which \<open>!user.latitude\<close> holds.
  \<^item> The fine of a violation, which no modelled operation computes with, is kept as
    the number its decimal string denotes.
  \<^item> A timestamp is the number of milliseconds since the epoch; every operation that
    reads the clock takes the current time \<open>now\<close> as an argument.
  \<^item> A \<open>Map<number, T>\<close> is an association list in insertion order:
    \<open>get\<close> is \<^const>\<open>map_of\<close>, \<open>set\<close> is \<^const>\<open>AList.update\<close> (an existing key
    keeps its place, a new key goes to the end) and \<open>values()\<close> is \<open>map snd\<close>.
  \<^item> Only the columns that the modelled operations read or write are fields of the
    records; the remaining profile columns are carried along unchanged by the code.
\<close>

type_synonym timestamp = int

record user =
  uid :: int
  username :: string
  email :: string
  latitude :: "number option"
  longitude :: "number option"
  walletBalance :: number
  suspendedUntil :: "timestamp option"

datatype swipe_action = Like | Pass | SuperLike

record insertSwipe =
  swiperId :: int
  swipedId :: int
  action :: swipe_action

record swipe = insertSwipe +
  swipe_id :: int
  swipe_createdAt :: timestamp

record insertMatch =
  match_user1Id :: int
  match_user2Id :: int

record match = insertMatch +
  match_id :: int
  isActive :: bool
  matchedAt :: timestamp

record insertMessage =
  matchId :: int
  senderId :: int
  content :: string

record message = insertMessage +
  message_id :: int
  isRead :: bool
  sentAt :: timestamp

text \<open>
  Modelled from the spec: the table \<open>blindDates\<close> and the types \<open>BlindDate\<close> and
  \<open>InsertBlindDate\<close>, which storage.ts imports from the schema, are not declared in
  shared/schema.ts as it stands (it declares \<open>dinnerDates\<close>). The fields are those of
  the data model of the specification; they are the ones that the storage and the
  handlers read and write.
\<close>

datatype blind_date_status = Pending | Matched | Completed | Cancelled

record insertBlindDate =
  user1Id :: int
  radius :: int
  centerLat :: number
  centerLng :: number
  amount :: number

record blindDate = insertBlindDate +
  blindDate_id :: int
  user2Id :: "int option"
  status :: blind_date_status
  scheduledFor :: "timestamp option"
  blindDate_createdAt :: timestamp

datatype violation_status = ViolationPending | ViolationReviewed | ViolationResolved

record insertViolation =
  userId :: int
  violation_type :: string
  violation_content :: string
  fineAmount :: real

record violation = insertViolation +
  violation_id :: int
  violation_status :: violation_status
  violation_createdAt :: timestamp

record store =
  users :: "(int \<times> user) list"
  matches :: "(int \<times> match) list"
  swipes :: "(int \<times> swipe) list"
  messages :: "(int \<times> message) list"
  blindDates :: "(int \<times> blindDate) list"
  violations :: "(int \<times> violation) list"
  currentMatchId :: int
  currentSwipeId :: int
  currentMessageId :: int
  currentBlindDateId :: int
  currentViolationId :: int

text \<open>The store of a fresh \<open>new MemStorage()\<close>: empty maps, every counter at 1.\<close>

definition emptyStore :: store where
  "emptyStore = \<lparr> users = [], matches = [], swipes = [], messages = [], blindDates = [],
     violations = [], currentMatchId = 1, currentSwipeId = 1, currentMessageId = 1,
     currentBlindDateId = 1, currentViolationId = 1 \<rparr>"

subsection \<open>Users\<close>

definition getUser :: "store \<Rightarrow> int \<Rightarrow> user option" where
  "getUser s i = map_of (users s) i"

text \<open>
  \<open>updateUser(id, updates)\<close>: the shallow merge \<open>{...user, ...updates}\<close> is the function
  \<open>upd\<close> on the stored record; an unknown id returns \<open>undefined\<close> and changes nothing.
\<close>

definition updateUser :: "store \<Rightarrow> int \<Rightarrow> (user \<Rightarrow> user) \<Rightarrow> user option \<times> store" where
  "updateUser s i upd =
     (case map_of (users s) i of
        None \<Rightarrow> (None, s)
      | Some u \<Rightarrow> (Some (upd u), s\<lparr>users := AList.update i (upd u) (users s)\<rparr>))"

text \<open>
  The filter of \<open>getUsersNearby\<close>: an excluded id, a missing latitude or a missing
  longitude gives \<open>false\<close> at once; otherwise the planar distance
  \<open>Math.sqrt(Math.pow(lat - userLat, 2) + Math.pow(lng - userLng, 2)) * 111\<close>, every
  operation of it on doubles, is compared with the radius.
\<close>

definition planarDistance :: "number \<Rightarrow> number \<Rightarrow> number \<Rightarrow> number \<Rightarrow> number" where
  "planarDistance lat lng userLat userLng =
     multiply
       (Math_sqrt (add (Math_pow2 (subtract lat userLat)) (Math_pow2 (subtract lng userLng))))
       (Num 111)"

definition nearbyFilter :: "number \<Rightarrow> number \<Rightarrow> number \<Rightarrow> int list \<Rightarrow> user \<Rightarrow> bool" where
  "nearbyFilter lat lng r excludeIds u =
     (if uid u \<in> set excludeIds \<or> latitude u = None \<or> longitude u = None then False
      else isLessEq (planarDistance lat lng (the (latitude u)) (the (longitude u))) r)"

definition getUsersNearby ::
  "store \<Rightarrow> number \<Rightarrow> number \<Rightarrow> number \<Rightarrow> int list \<Rightarrow> user list" where
  "getUsersNearby s lat lng r excludeIds =
     filter (nearbyFilter lat lng r excludeIds) (map snd (users s))"

subsection \<open>Swipes and matches\<close>

text \<open>\<open>getSwipe\<close>: the first swipe, in insertion order, of the ordered pair.\<close>

definition getSwipe :: "store \<Rightarrow> int \<Rightarrow> int \<Rightarrow> swipe option" where
  "getSwipe s a b = find (\<lambda>sw. swiperId sw = a \<and> swipedId sw = b) (map snd (swipes s))"

definition createSwipe :: "store \<Rightarrow> timestamp \<Rightarrow> insertSwipe \<Rightarrow> swipe \<times> store" where
  "createSwipe s now d =
     (let sw = \<lparr> swiperId = swiperId d, swipedId = swipedId d, action = action d,
                  swipe_id = currentSwipeId s, swipe_createdAt = now \<rparr>
      in (sw, s\<lparr> currentSwipeId := currentSwipeId s + 1,
                 swipes := AList.update (swipe_id sw) sw (swipes s) \<rparr>))"

definition createMatch :: "store \<Rightarrow> timestamp \<Rightarrow> insertMatch \<Rightarrow> match \<times> store" where
  "createMatch s now d =
     (let m = \<lparr> match_user1Id = match_user1Id d, match_user2Id = match_user2Id d,
                 match_id = currentMatchId s, isActive = True, matchedAt = now \<rparr>
      in (m, s\<lparr> currentMatchId := currentMatchId s + 1,
                matches := AList.update (match_id m) m (matches s) \<rparr>))"

subsection \<open>Messages and violations\<close>

definition createMessage :: "store \<Rightarrow> timestamp \<Rightarrow> insertMessage \<Rightarrow> message \<times> store" where
  "createMessage s now d =
     (let m = \<lparr> matchId = matchId d, senderId = senderId d, content = content d,
                 message_id = currentMessageId s, isRead = False, sentAt = now \<rparr>
      in (m, s\<lparr> currentMessageId := currentMessageId s + 1,
                messages := AList.update (message_id m) m (messages s) \<rparr>))"

definition createViolation :: "store \<Rightarrow> timestamp \<Rightarrow> insertViolation \<Rightarrow> violation \<times> store" where
  "createViolation s now d =
     (let v = \<lparr> userId = userId d, violation_type = violation_type d,
                 violation_content = violation_content d, fineAmount = fineAmount d,
                 violation_id = currentViolationId s, violation_status = ViolationPending,
                 violation_createdAt = now \<rparr>
      in (v, s\<lparr> currentViolationId := currentViolationId s + 1,
                violations := AList.update (violation_id v) v (violations s) \<rparr>))"

subsection \<open>Blind dates\<close>

definition getBlindDate :: "store \<Rightarrow> int \<Rightarrow> blindDate option" where
  "getBlindDate s i = map_of (blindDates s) i"

definition createBlindDate :: "store \<Rightarrow> timestamp \<Rightarrow> insertBlindDate \<Rightarrow> blindDate \<times> store" where
  "createBlindDate s now d =
     (let bd = \<lparr> user1Id = user1Id d, radius = radius d, centerLat = centerLat d,
                  centerLng = centerLng d, amount = amount d,
                  blindDate_id = currentBlindDateId s, user2Id = None, status = Pending,
                  scheduledFor = None, blindDate_createdAt = now \<rparr>
      in (bd, s\<lparr> currentBlindDateId := currentBlindDateId s + 1,
                 blindDates := AList.update (blindDate_id bd) bd (blindDates s) \<rparr>))"

definition updateBlindDate ::
  "store \<Rightarrow> int \<Rightarrow> (blindDate \<Rightarrow> blindDate) \<Rightarrow> blindDate option \<times> store" where
  "updateBlindDate s i upd =
     (case map_of (blindDates s) i of
        None \<Rightarrow> (None, s)
      | Some bd \<Rightarrow> (Some (upd bd), s\<lparr>blindDates := AList.update i (upd bd) (blindDates s)\<rparr>))"

text \<open>\<open>matchBlindDate\<close> schedules the date \<open>24 * 60 * 60 * 1000\<close> ms after the call.\<close>

definition matchBlindDate :: "store \<Rightarrow> timestamp \<Rightarrow> int \<Rightarrow> int \<Rightarrow> blindDate option \<times> store" where
  "matchBlindDate s now blindDateId u2 =
     updateBlindDate s blindDateId
       (\<lambda>bd. bd\<lparr> user2Id := Some u2, status := Matched,
                  scheduledFor := Some (now + 24 * 60 * 60 * 1000) \<rparr>)"

section \<open>The request handlers (registerRoutes)\<close>

text \<open>
  A handler takes the store, the clock and the request body as validated by the zod
  schema, and returns the HTTP response with the store it leaves behind. \<open>Json\<close> is
  \<open>res.json(body)\<close>, \<open>Status c m\<close> is \<open>res.status(c).json({message: m})\<close>.
\<close>

datatype 'a response = Json 'a | Status nat string

subsection \<open>POST /api/swipe\<close>

definition postSwipe ::
  "store \<Rightarrow> timestamp \<Rightarrow> insertSwipe \<Rightarrow> (swipe \<times> match option) response \<times> store" where
  "postSwipe s now d =
     (case getSwipe s (swiperId d) (swipedId d) of
        Some existingSwipe \<Rightarrow> (Status 400 ''Already swiped'', s)
      | None \<Rightarrow>
          (let (sw, s1) = createSwipe s now d in
           if action d = Like then
             (case getSwipe s1 (swipedId d) (swiperId d) of
                Some reciprocalSwipe \<Rightarrow>
                  if action reciprocalSwipe = Like then
                    (let (m, s2) = createMatch s1 now
                           \<lparr> match_user1Id = swiperId d, match_user2Id = swipedId d \<rparr>
                     in (Json (sw, Some m), s2))
                  else (Json (sw, None), s1)
              | None \<Rightarrow> (Json (sw, None), s1))
           else (Json (sw, None), s1)))"

text \<open>A sequence of swipe requests, each with the time it arrives at.\<close>

fun runSwipes :: "store \<Rightarrow> (timestamp \<times> insertSwipe) list \<Rightarrow> store" where
  "runSwipes s [] = s"
| "runSwipes s ((now, d) # rs) = runSwipes (snd (postSwipe s now d)) rs"

text \<open>
  What the store records about a pair of users: a like from \<open>a\<close> to \<open>b\<close>, and the
  matches between the two, in either order of \<open>user1Id\<close> and \<open>user2Id\<close>.
\<close>

definition likes :: "store \<Rightarrow> int \<Rightarrow> int \<Rightarrow> bool" where
  "likes s a b =
     list_ex (\<lambda>sw. swiperId sw = a \<and> swipedId sw = b \<and> action sw = Like) (map snd (swipes s))"

definition matchesBetween :: "store \<Rightarrow> int \<Rightarrow> int \<Rightarrow> match list" where
  "matchesBetween s a b =
     filter (\<lambda>m. (match_user1Id m = a \<and> match_user2Id m = b) \<or>
                 (match_user1Id m = b \<and> match_user2Id m = a)) (map snd (matches s))"

subsection \<open>POST /api/blind-dates and POST /api/blind-dates/:id/join\<close>

text \<open>
  \<open>insertBlindDateSchema\<close>, which the create handler imports from the schema, is not
  declared in shared/schema.ts as it stands: its \<open>parse\<close> is a parameter of the handler,
  \<open>None\<close> where it throws, which the \<open>catch\<close> clause answers with status 400.
\<close>

definition postBlindDate ::
  "('b \<Rightarrow> insertBlindDate option) \<Rightarrow> store \<Rightarrow> timestamp \<Rightarrow> 'b \<Rightarrow> blindDate response \<times> store"
  where
  "postBlindDate insertBlindDateSchema s now body =
     (case insertBlindDateSchema body of
        None \<Rightarrow> (Status 400 ''Invalid blind date data'', s)
      | Some d \<Rightarrow>
          (case getUser s (user1Id d) of
             None \<Rightarrow> (Status 400 ''Insufficient wallet balance'', s)
           | Some u \<Rightarrow>
               if isLess (walletBalance u) (amount d)
               then (Status 400 ''Insufficient wallet balance'', s)
               else
                 (let (bd, s1) = createBlindDate s now d;
                      (updated, s2) = updateUser s1 (user1Id d)
                         (\<lambda>x. x\<lparr>walletBalance := subtract (walletBalance u) (amount d)\<rparr>)
                  in (Json bd, s2))))"

definition joinBlindDate ::
  "store \<Rightarrow> timestamp \<Rightarrow> int \<Rightarrow> int \<Rightarrow> blindDate option response \<times> store" where
  "joinBlindDate s now blindDateId joiner =
     (case (getUser s joiner, getBlindDate s blindDateId) of
        (Some u, Some bd) \<Rightarrow>
          if isLess (walletBalance u) (amount bd)
          then (Status 400 ''Insufficient wallet balance'', s)
          else
            (let (matchedBlindDate, s1) = matchBlindDate s now blindDateId joiner;
                 (updated, s2) = updateUser s1 joiner
                    (\<lambda>x. x\<lparr>walletBalance := subtract (walletBalance u) (amount bd)\<rparr>)
             in (Json matchedBlindDate, s2))
      | _ \<Rightarrow> (Status 404 ''User or blind date not found'', s))"

text \<open>
  The listing of GET /api/blind-dates/available keeps a blind date only if it is pending
  and not the requester's own (the distance test comes after).
\<close>

definition availableFilter :: "user \<Rightarrow> number \<Rightarrow> number \<Rightarrow> number \<Rightarrow> blindDate \<Rightarrow> bool" where
  "availableFilter u lat lng r bd =
     (if status bd \<noteq> Pending \<or> user1Id bd = uid u then False
      else isLessEq (planarDistance lat lng (centerLat bd) (centerLng bd)) r)"

section \<open>JavaScript strings and regular expressions\<close>

text \<open>
  A string is a list of code units; a \<^typ>\<open>char\<close> is a code unit below 256, read as in
  Latin-1. \<open>\s\<close> (and \<open>trim\<close>) take the white space of that range: tab, line feed,
  vertical tab, form feed, carriage return, space and the no-break space. \<open>\d\<close> and
  \<open>\w\<close> are ASCII. \<open>toLowerCase\<close> maps \<open>A-Z\<close> and the upper-case letters
  \<open>0xC0-0xDE\<close> (without the multiplication sign \<open>0xD7\<close>) to the code unit 32
  places up.
\<close>

definition charCode :: "char \<Rightarrow> nat" where
  "charCode c = of_char c"

definition is_digit :: "char \<Rightarrow> bool" where
  "is_digit c = (48 \<le> charCode c \<and> charCode c \<le> 57)"

definition is_upper :: "char \<Rightarrow> bool" where
  "is_upper c = (65 \<le> charCode c \<and> charCode c \<le> 90)"

definition is_lower :: "char \<Rightarrow> bool" where
  "is_lower c = (97 \<le> charCode c \<and> charCode c \<le> 122)"

definition is_word :: "char \<Rightarrow> bool" where
  "is_word c = (is_digit c \<or> is_upper c \<or> is_lower c \<or> c = CHR ''_'')"

definition is_space :: "char \<Rightarrow> bool" where
  "is_space c = (charCode c \<in> {9, 10, 11, 12, 13, 32, 160})"

text \<open>
  The code units that \<open>toLowerCase\<close> changes, and the code units whose upper-case form
  is a single code unit of the range.
\<close>

definition has_lower_form :: "char \<Rightarrow> bool" where
  "has_lower_form c =
     (let n = charCode c in (65 \<le> n \<and> n \<le> 90) \<or> (192 \<le> n \<and> n \<le> 222 \<and> n \<noteq> 215))"

definition has_upper_form :: "char \<Rightarrow> bool" where
  "has_upper_form c =
     (let n = charCode c in (97 \<le> n \<and> n \<le> 122) \<or> (224 \<le> n \<and> n \<le> 254 \<and> n \<noteq> 247))"

text \<open>
  The lower-case form is 32 places up and the upper-case form 32 places down. In
  \<open>Char b0 \<dots> b7\<close> the bit \<open>b5\<close> counts 32; it is clear in every code unit that has a
  lower-case form and set in every code unit that has an upper-case form, so that adding
  32 sets it and subtracting 32 clears it.
\<close>

fun toLowerChar :: "char \<Rightarrow> char" where
  "toLowerChar (Char b0 b1 b2 b3 b4 b5 b6 b7) =
     (if has_lower_form (Char b0 b1 b2 b3 b4 b5 b6 b7) then Char b0 b1 b2 b3 b4 True b6 b7
      else Char b0 b1 b2 b3 b4 b5 b6 b7)"

definition toLowerCase :: "string \<Rightarrow> string" where
  "toLowerCase s = map toLowerChar s"

text \<open>
  The canonical form that the flag \<open>i\<close> compares: the upper-case form of a code unit,
  where that is a single code unit of the range.
\<close>

fun canonicalize :: "char \<Rightarrow> char" where
  "canonicalize (Char b0 b1 b2 b3 b4 b5 b6 b7) =
     (if has_upper_form (Char b0 b1 b2 b3 b4 b5 b6 b7) then Char b0 b1 b2 b3 b4 False b6 b7
      else Char b0 b1 b2 b3 b4 b5 b6 b7)"

fun startsWith :: "string \<Rightarrow> string \<Rightarrow> bool" where
  "startsWith s [] = True"
| "startsWith [] (y # ys) = False"
| "startsWith (x # xs) (y # ys) = (x = y \<and> startsWith xs ys)"

text \<open>\<open>s.includes(w)\<close>: \<open>w\<close> occurs in \<open>s\<close> as a substring.\<close>

fun str_includes :: "string \<Rightarrow> string \<Rightarrow> bool" where
  "str_includes [] w = (w = [])"
| "str_includes (c # cs) w = (startsWith (c # cs) w \<or> str_includes cs w)"

definition trim :: "string \<Rightarrow> string" where
  "trim s = rev (dropWhile is_space (rev (dropWhile is_space s)))"

text \<open>
  \<open>s.split(/\s+/)\<close>: the pieces between the maximal runs of white space; a string that
  starts or ends with white space gives an empty first or last piece, and the empty
  string gives one empty piece. \<open>cur\<close> is the piece being read, reversed; \<open>inws\<close> says
  that the last code unit read was white space.
\<close>

fun splitWs :: "bool \<Rightarrow> string \<Rightarrow> string \<Rightarrow> string list" where
  "splitWs inws cur [] = [rev cur]"
| "splitWs inws cur (c # cs) =
     (if is_space c then (if inws then splitWs True cur cs else rev cur # splitWs True [] cs)
      else splitWs False (c # cur) cs)"

definition split_whitespace :: "string \<Rightarrow> string list" where
  "split_whitespace s = splitWs False [] s"

text \<open>The values of a \<open>Set\<close> built from a list: the first occurrence of each element.\<close>

fun uniqFrom :: "'a list \<Rightarrow> 'a list \<Rightarrow> 'a list" where
  "uniqFrom seen [] = []"
| "uniqFrom seen (x # xs) = (if x \<in> set seen then uniqFrom seen xs else x # uniqFrom (x # seen) xs)"

definition uniq :: "'a list \<Rightarrow> 'a list" where
  "uniq xs = uniqFrom [] xs"

subsection \<open>A backtracking matcher\<close>

text \<open>
  The patterns of the repository use character classes, bounded and unbounded
  repetition of a class, optional groups, alternation, \<open>\b\<close> and \<open>^\<close>. A cursor is
  the code unit before the current position (none at the start of the string) and the
  rest of the string. \<open>rmatch r cur\<close> lists the cursors at which a match of \<open>r\<close> that
  starts at \<open>cur\<close> can end, in the order in which the backtracking matcher of JavaScript
  tries them: greedy repetition gives the longest run first, an optional group is tried
  before it is skipped, the left alternative before the right one. The first cursor of
  the list is the end of the match that \<open>exec\<close> reports.
\<close>

type_synonym cursor = "char option \<times> string"

datatype rx =
    Atom "char \<Rightarrow> bool"
  | Many "char \<Rightarrow> bool" nat "nat option"
  | Seq rx rx
  | Alt rx rx
  | Opt rx
  | WordB
  | Bol

text \<open>
  \<open>takeMany p hi cur acc\<close> walks over at most \<open>hi\<close> code units that satisfy \<open>p\<close> and
  stacks the cursors it passes, so that the longest run comes first.
\<close>

fun takeMany :: "(char \<Rightarrow> bool) \<Rightarrow> nat option \<Rightarrow> cursor \<Rightarrow> cursor list \<Rightarrow> cursor list" where
  "takeMany p hi (prev, []) acc = (prev, []) # acc"
| "takeMany p hi (prev, c # cs) acc =
     (if hi = Some 0 \<or> \<not> p c then (prev, c # cs) # acc
      else takeMany p (map_option (\<lambda>h. h - 1) hi) (Some c, cs) ((prev, c # cs) # acc))"

fun rmatch :: "rx \<Rightarrow> cursor \<Rightarrow> cursor list" where
  "rmatch (Atom p) (prev, s) =
     (case s of [] \<Rightarrow> [] | c # cs \<Rightarrow> if p c then [(Some c, cs)] else [])"
| "rmatch (Many p lo hi) cur =
     (let ends = takeMany p hi cur [] in take (length ends - lo) ends)"
| "rmatch (Seq r1 r2) cur = concat (map (rmatch r2) (rmatch r1 cur))"
| "rmatch (Alt r1 r2) cur = rmatch r1 cur @ rmatch r2 cur"
| "rmatch (Opt r) cur = rmatch r cur @ [cur]"
| "rmatch WordB (prev, s) =
     (if (case prev of None \<Rightarrow> False | Some c \<Rightarrow> is_word c) \<noteq>
         (case s of [] \<Rightarrow> False | c # cs \<Rightarrow> is_word c)
      then [(prev, s)] else [])"
| "rmatch Bol (prev, s) = (if prev = None then [(prev, s)] else [])"

text \<open>
  \<open>rx_search\<close>: the leftmost match at or after the cursor, as the rest of the string
  where the match starts and the rest where it ends.
\<close>

fun rx_search :: "rx \<Rightarrow> char option \<Rightarrow> string \<Rightarrow> (string \<times> string) option" where
  "rx_search r prev [] =
     (case rmatch r (prev, []) of e # es \<Rightarrow> Some ([], snd e) | [] \<Rightarrow> None)"
| "rx_search r prev (c # cs) =
     (case rmatch r (prev, c # cs) of
        e # es \<Rightarrow> Some (c # cs, snd e)
      | [] \<Rightarrow> rx_search r (Some c) cs)"

text \<open>\<open>regex.test(s)\<close> for a regular expression without the flag \<open>g\<close>.\<close>

definition rx_test :: "rx \<Rightarrow> string \<Rightarrow> bool" where
  "rx_test r s = (rx_search r None s \<noteq> None)"

text \<open>
  \<open>regex.test(s)\<close> for a regular expression with the flag \<open>g\<close>: the search starts at
  \<open>lastIndex\<close>; a match leaves \<open>lastIndex\<close> at its end, a failure resets it to 0. The
  result comes with the new \<open>lastIndex\<close>.
\<close>

definition rx_test_global :: "rx \<Rightarrow> nat \<Rightarrow> string \<Rightarrow> bool \<times> nat" where
  "rx_test_global r lastIndex s =
     (if lastIndex > length s then (False, 0)
      else case rx_search r (if lastIndex = 0 then None else Some (s ! (lastIndex - 1)))
                  (drop lastIndex s) of
             None \<Rightarrow> (False, 0)
           | Some (from, rest) \<Rightarrow> (True, length s - length rest))"

text \<open>
  \<open>Array.from(s.matchAll(regex))\<close> for a regular expression with the flag \<open>g\<close> whose
  \<open>lastIndex\<close> is 0: the matches from left to right, each with its index; the search
  goes on at the end of a match, one code unit further after an empty match. \<open>skip\<close>
  counts the code units still covered by the last match, \<open>idx\<close> is the current index.
\<close>

fun matchAll :: "rx \<Rightarrow> nat \<Rightarrow> nat \<Rightarrow> char option \<Rightarrow> string \<Rightarrow> (nat \<times> string) list" where
  "matchAll r skip idx prev [] =
     (if skip > 0 then []
      else case rmatch r (prev, []) of [] \<Rightarrow> [] | e # es \<Rightarrow> [(idx, [])])"
| "matchAll r skip idx prev (c # cs) =
     (if skip > 0 then matchAll r (skip - 1) (idx + 1) (Some c) cs
      else case rmatch r (prev, c # cs) of
          [] \<Rightarrow> matchAll r 0 (idx + 1) (Some c) cs
        | e # es \<Rightarrow>
            (let n = length (c # cs) - length (snd e)
             in (idx, take n (c # cs)) # matchAll r (n - 1) (idx + 1) (Some c) cs))"

text \<open>
  \<open>s.replace(regex, repl)\<close> for a regular expression with the flag \<open>g\<close> and a
  replacement string without \<open>$\<close>.
\<close>

fun replaceAll :: "rx \<Rightarrow> string \<Rightarrow> nat \<Rightarrow> char option \<Rightarrow> string \<Rightarrow> string" where
  "replaceAll r repl skip prev [] =
     (if skip > 0 then []
      else case rmatch r (prev, []) of [] \<Rightarrow> [] | e # es \<Rightarrow> repl)"
| "replaceAll r repl skip prev (c # cs) =
     (if skip > 0 then replaceAll r repl (skip - 1) (Some c) cs
      else case rmatch r (prev, c # cs) of
          [] \<Rightarrow> c # replaceAll r repl 0 (Some c) cs
        | e # es \<Rightarrow>
            (let n = length (c # cs) - length (snd e)
             in if n = 0 then repl @ c # replaceAll r repl 0 (Some c) cs
                else repl @ replaceAll r repl (n - 1) (Some c) cs))"

subsection \<open>Building patterns\<close>

definition rx_empty :: rx where
  "rx_empty = Many (\<lambda>c. False) 0 (Some 0)"

fun seqs :: "rx list \<Rightarrow> rx" where
  "seqs [] = rx_empty"
| "seqs [r] = r"
| "seqs (r # rs) = Seq r (seqs rs)"

fun alts :: "rx list \<Rightarrow> rx" where
  "alts [] = Atom (\<lambda>c. False)"
| "alts [r] = r"
| "alts (r # rs) = Alt r (alts rs)"

definition chr :: "char \<Rightarrow> rx" where
  "chr c = Atom (\<lambda>x. x = c)"

definition oneOf :: "string \<Rightarrow> char \<Rightarrow> bool" where
  "oneOf cs c = (c \<in> set cs)"

definition exactly :: "nat \<Rightarrow> (char \<Rightarrow> bool) \<Rightarrow> rx" where
  "exactly n p = Many p n (Some n)"

definition lit :: "string \<Rightarrow> rx" where
  "lit w = seqs (map chr w)"

text \<open>A literal under the flag \<open>i\<close>.\<close>

definition chr_i :: "char \<Rightarrow> rx" where
  "chr_i c = (let k = canonicalize c in Atom (\<lambda>x. canonicalize x = k))"

definition lit_i :: "string \<Rightarrow> rx" where
  "lit_i w = seqs (map chr_i w)"

text \<open>The class \<open>[-.\s]\<close>.\<close>

definition sep :: "char \<Rightarrow> bool" where
  "sep c = (oneOf ''-.'' c \<or> is_space c)"

text \<open>The class \<open>[-_.*#@!]\<close>.\<close>

definition symbol :: "char \<Rightarrow> bool" where
  "symbol c = oneOf ''-_.*#@!'' c"

section \<open>The content moderator (class ContentModerator)\<close>

datatype phone_type = TypeNumber | TypeSpelled | TypeDisguised

record phoneNumberMatch =
  match_text :: string
  match_type :: phone_type
  confidence :: real
  position_start :: nat
  position_end :: nat

record moderationConfig =
  strictMode :: bool
  checkPhoneNumbers :: bool
  checkInappropriateContent :: bool
  checkSpam :: bool
  customBlockedWords :: "string list"

record moderationResult =
  isViolation :: bool
  violationType :: "string list"
  result_confidence :: real
  flaggedContent :: "string list"
  suggestions :: "string list"

text \<open>The configuration of \<open>new ContentModerator()\<close>.\<close>

definition defaultConfig :: moderationConfig where
  "defaultConfig = \<lparr> strictMode = False, checkPhoneNumbers = True,
     checkInappropriateContent = True, checkSpam = True, customBlockedWords = [] \<rparr>"

subsection \<open>The phone patterns\<close>

definition digits3 :: rx where "digits3 = exactly 3 is_digit"
definition digits4 :: rx where "digits4 = exactly 4 is_digit"
definition optSep :: rx where "optSep = Opt (Atom sep)"

definition phonePatterns_standard :: "rx list" where
  "phonePatterns_standard =
     [ seqs [Opt (seqs [Opt (chr CHR ''+''), Opt (chr CHR ''1''), optSep]),
             Opt (chr CHR ''(''), digits3, Opt (chr CHR '')''), optSep, digits3, optSep, digits4],
       seqs [WordB, exactly 10 is_digit, WordB],
       seqs [WordB, digits3, optSep, digits3, optSep, digits4, WordB],
       seqs [chr CHR ''('', digits3, chr CHR '')'', Opt (Atom is_space), digits3, optSep, digits4],
       seqs [chr CHR ''+'', chr CHR ''1'', optSep, digits3, optSep, digits3, optSep, digits4] ]"

definition phonePatterns_international :: "rx list" where
  "phonePatterns_international =
     [ seqs [chr CHR ''+'', Many is_digit 1 (Some 3), optSep, Many is_digit 4 (Some 14)],
       seqs [lit ''00'', Many is_digit 1 (Some 3), optSep, Many is_digit 4 (Some 14)] ]"

definition separatorWord :: rx where
  "separatorWord = alts [lit_i ''dot'', lit_i ''dash'', lit_i ''space'', lit_i ''at'']"

definition phonePatterns_disguised :: "rx list" where
  "phonePatterns_disguised =
     [ seqs [WordB, Many is_digit 1 None, Many is_space 0 None, Many symbol 1 None,
             Many is_space 0 None, Many is_digit 1 None, Many is_space 0 None,
             Many symbol 1 None, Many is_space 0 None, Many is_digit 1 None],
       seqs [WordB, Many is_digit 1 None, Many is_space 0 None, separatorWord,
             Many is_space 0 None, Many is_digit 1 None, Many is_space 0 None,
             separatorWord, Many is_space 0 None, Many is_digit 1 None] ]"

subsection \<open>The word lists\<close>

definition sexual :: "string list" where
  "sexual = [''explicit'', ''nude'', ''naked'', ''sex'', ''sexual'', ''porn'', ''xxx'', ''adult'',
     ''hookup'', ''dtf'', ''fwb'', ''nsa'', ''casual'', ''bedroom'', ''intimate'']"

definition offensive :: "string list" where
  "offensive = [''hate'', ''stupid'', ''idiot'', ''moron'', ''loser'', ''ugly'', ''fat'']"

definition harassment :: "string list" where
  "harassment = [''stalk'', ''follow home'', ''creep'', ''obsessed'', ''crazy'', ''psycho'',
     ''bitch'', ''slut'', ''whore'', ''kill yourself'', ''die'']"

definition spam :: "string list" where
  "spam = [''buy now'', ''click here'', ''free money'', ''get rich'', ''work from home'',
     ''miracle cure'', ''weight loss'', ''viagra'', ''bitcoin'', ''investment'']"

definition personalInfo :: "string list" where
  "personalInfo = [''address'', ''home address'', ''where do you live'', ''phone number'',
     ''cell phone'', ''mobile'', ''whatsapp'', ''telegram'', ''snapchat'',
     ''instagram'', ''facebook'', ''social security'', ''credit card'']"

definition inappropriateContent :: "(string \<times> string list) list" where
  "inappropriateContent = [(''sexual'', sexual), (''offensive'', offensive),
     (''harassment'', harassment), (''spam'', spam), (''personalInfo'', personalInfo)]"

subsection \<open>Phone numbers\<close>

definition calculatePhoneConfidence :: "string \<Rightarrow> real" where
  "calculatePhoneConfidence t =
     (let digits = filter is_digit t;
          c1 = 5 / 10 +
            (if length digits = 10 then 3 / 10
             else if length digits = 11 \<and> take 1 digits = ''1'' then 3 / 10
             else if 7 \<le> length digits \<and> length digits \<le> 15 then 1 / 10 else 0);
          c2 = c1 + (if rx_test (seqs [chr CHR ''('', digits3, chr CHR '')'']) t
                     then 2 / 10 else 0);
          c3 = c2 + (if rx_test (seqs [digits3, Atom sep, digits3, Atom sep, digits4]) t
                     then 2 / 10 else 0);
          c4 = c3 + (if rx_test (seqs [Bol, chr CHR ''+'']) t then 1 / 10 else 0)
      in min c4 1)"

definition calculateDisguisedPhoneConfidence :: "string \<Rightarrow> real" where
  "calculateDisguisedPhoneConfidence t =
     (let digitCount = length (filter is_digit t);
          c1 = 3 / 10 + (if digitCount \<ge> 7 then 3 / 10 else 0);
          c2 = c1 + (if digitCount \<ge> 10 then 2 / 10 else 0);
          c3 = c2 + (if rx_test (Atom symbol) t then 2 / 10 else 0)
      in min c3 (9 / 10))"

definition numberWords :: "string list" where
  "numberWords = [''zero'', ''one'', ''two'', ''three'', ''four'', ''five'', ''six'', ''seven'',
     ''eight'', ''nine'', ''oh'', ''o'']"

text \<open>
  The inner loop of \<open>detectSpelledPhoneNumbers\<close> over the window
  \<open>words[i .. min(i + 15, words.length) - 1]\<close>: a number word extends the sequence; any
  other word ends the loop, with a match if at least 7 number words came before it; the
  end of the window ends the loop with nothing.
\<close>

fun spelledScan :: "string list \<Rightarrow> string \<Rightarrow> nat \<Rightarrow> phoneNumberMatch option" where
  "spelledScan [] sequence consecutiveNumbers = None"
| "spelledScan (w # ws) sequence consecutiveNumbers =
     (if w \<in> set numberWords then spelledScan ws (sequence @ w @ '' '') (consecutiveNumbers + 1)
      else if consecutiveNumbers \<ge> 7 then
        Some \<lparr> match_text = trim sequence, match_type = TypeSpelled,
               confidence = min (9 / 10) (real consecutiveNumbers / 10),
               position_start = 0, position_end = 0 \<rparr>
      else None)"

text \<open>The outer loop runs \<open>i\<close> from 0 while \<open>i < words.length - 6\<close>.\<close>

definition detectSpelledPhoneNumbers :: "string \<Rightarrow> phoneNumberMatch list" where
  "detectSpelledPhoneNumbers t =
     (let words = split_whitespace (toLowerCase t)
      in concat (map (\<lambda>i. case spelledScan (take 15 (drop i words)) [] 0 of
                             None \<Rightarrow> [] | Some m \<Rightarrow> [m])
                     [0 ..< length words - 6]))"

definition detectDisguisedPhoneNumbers :: "string \<Rightarrow> phoneNumberMatch list" where
  "detectDisguisedPhoneNumbers t =
     concat (map (\<lambda>pattern.
        concat (map (\<lambda>(i, m).
           let c = calculateDisguisedPhoneConfidence m
           in if c > 4 / 10
              then [\<lparr> match_text = m, match_type = TypeDisguised, confidence = c,
                      position_start = i, position_end = i + length m \<rparr>]
              else [])
          (matchAll pattern 0 0 None t)))
       phonePatterns_disguised)"

definition numberMatches :: "rx list \<Rightarrow> string \<Rightarrow> phoneNumberMatch list" where
  "numberMatches patterns t =
     concat (map (\<lambda>pattern.
        map (\<lambda>(i, m). \<lparr> match_text = m, match_type = TypeNumber,
                         confidence = calculatePhoneConfidence m,
                         position_start = i, position_end = i + length m \<rparr>)
          (matchAll pattern 0 0 None t))
       patterns)"

definition detectPhoneNumbers :: "moderationConfig \<Rightarrow> string \<Rightarrow> phoneNumberMatch list" where
  "detectPhoneNumbers cfg t =
     (let allMatches = numberMatches phonePatterns_standard t
                  @ numberMatches phonePatterns_international t
                  @ detectSpelledPhoneNumbers t
                  @ detectDisguisedPhoneNumbers t;
          confidenceThreshold = (if strictMode cfg then 3 / 10 else 6 / 10)
      in filter (\<lambda>m. confidence m \<ge> confidenceThreshold) allMatches)"

subsection \<open>Inappropriate content\<close>

record inappropriateResult =
  ic_violations :: "string list"
  ic_flaggedContent :: "string list"
  ic_confidence :: real

definition detectInappropriateContent :: "string \<Rightarrow> inappropriateResult" where
  "detectInappropriateContent t =
     (let lowerText = toLowerCase t;
          hits = concat (map (\<lambda>(category, words).
                   concat (map (\<lambda>w. if str_includes lowerText (toLowerCase w)
                                      then [(category, w)] else []) words))
                   inappropriateContent)
      in \<lparr> ic_violations = uniq (map fst hits),
           ic_flaggedContent = uniq (map snd hits),
           ic_confidence = (if hits = [] then 0 else 8 / 10) \<rparr>)"

subsection \<open>Spam\<close>

text \<open>
  The word counts are the properties of an object that starts as \<open>{}\<close>, which inherits
  from \<open>Object.prototype\<close>. For a key that the object does not own yet, \<open>acc[key]\<close>
  reads the prototype: of the lower-case keys, \<open>constructor\<close> gives a function and
  \<open>__proto__\<close> gives the prototype object, both truthy, so \<open>(acc[key] || 0) + 1\<close> is
  a string that is not a numeral. Storing it under \<open>constructor\<close> makes it a property
  of the object; storing it under \<open>__proto__\<close> calls the setter, which ignores a
  string. \<open>NotNumeric + 1\<close> is again such a string.
\<close>

datatype count_value = Count nat | NotNumeric

definition countWord :: "(string \<times> count_value) list \<Rightarrow> string \<Rightarrow> (string \<times> count_value) list" where
  "countWord acc w =
     (let k = toLowerCase w
      in if k = ''__proto__'' then acc
         else case map_of acc k of
                Some (Count n) \<Rightarrow> AList.update k (Count (n + 1)) acc
              | Some NotNumeric \<Rightarrow> AList.update k NotNumeric acc
              | None \<Rightarrow> if k = ''constructor'' then AList.update k NotNumeric acc
                        else AList.update k (Count 1) acc)"

text \<open>
  \<open>Math.max(...Object.values(wordCounts))\<close>: \<open>NaN\<close> as soon as one value is not
  numeric, \<open>-Infinity\<close> for no value.
\<close>

datatype max_value = NaN | NegInfinity | Finite nat

fun mathMax :: "count_value list \<Rightarrow> max_value" where
  "mathMax [] = NegInfinity"
| "mathMax (NotNumeric # vs) = NaN"
| "mathMax (Count n # vs) =
     (case mathMax vs of NaN \<Rightarrow> NaN | NegInfinity \<Rightarrow> Finite n | Finite m \<Rightarrow> Finite (max n m))"

fun exceeds :: "max_value \<Rightarrow> nat \<Rightarrow> bool" where
  "exceeds (Finite m) k = (m > k)"
| "exceeds NaN k = False"
| "exceeds NegInfinity k = False"

record spamResult =
  isSpam :: bool
  spam_flaggedContent :: "string list"
  spam_confidence :: real

definition spamScore :: "string \<Rightarrow> real" where
  "spamScore t =
     (let lowerText = toLowerCase t;
          flagged = filter (\<lambda>w. str_includes lowerText (toLowerCase w)) spam;
          s1 = real (length flagged) * (2 / 10);
          capsCount = length (filter is_upper t);
          s2 = s1 + (if t \<noteq> [] \<and> real capsCount / real (length t) > 5 / 10 then 3 / 10 else 0);
          punctRatio = length (matchAll (Many (oneOf ''!?'') 2 None) 0 0 None t);
          s3 = s2 + (if punctRatio > 0 then 2 / 10 else 0);
          wordCounts = fold (\<lambda>w acc. countWord acc w) (split_whitespace t) [];
          maxRepeats = mathMax (map snd wordCounts)
      in s3 + (if exceeds maxRepeats 3 then 2 / 10 else 0))"

definition detectSpam :: "string \<Rightarrow> spamResult" where
  "detectSpam t =
     \<lparr> isSpam = (spamScore t \<ge> 6 / 10),
       spam_flaggedContent = filter (\<lambda>w. str_includes (toLowerCase t) (toLowerCase w)) spam,
       spam_confidence = min (spamScore t) 1 \<rparr>"

subsection \<open>The verdict\<close>

definition checkCustomBlockedWords :: "moderationConfig \<Rightarrow> string \<Rightarrow> string list" where
  "checkCustomBlockedWords cfg t =
     filter (\<lambda>w. str_includes (toLowerCase t) (toLowerCase w)) (customBlockedWords cfg)"

definition generateSuggestions :: "string list \<Rightarrow> string list" where
  "generateSuggestions vs =
     (if ''phone_number'' \<in> set vs
      then [''Remove phone numbers and use our secure messaging system instead'',
            ''Try our video calling feature for direct communication''] else [])
   @ (if ''sexual'' \<in> set vs
      then [''Keep conversations respectful and appropriate'',
            ''Focus on getting to know each other first''] else [])
   @ (if ''harassment'' \<in> set vs
      then [''Be respectful and considerate in your messages'',
            ''Treat others as you would like to be treated''] else [])
   @ (if ''spam'' \<in> set vs
      then [''Write personalized messages instead of generic content'',
            ''Avoid excessive capitalization and punctuation''] else [])"

fun maxOf :: "real list \<Rightarrow> real" where
  "maxOf [] = 0"
| "maxOf [x] = x"
| "maxOf (x # xs) = max x (maxOf xs)"

text \<open>
  \<open>moderateContent\<close> runs the four checks in turn; each adds its violation types, its
  flagged strings and its confidence to what the checks before it found.
\<close>

type_synonym findings = "string list \<times> string list \<times> real"

definition phoneFindings :: "moderationConfig \<Rightarrow> string \<Rightarrow> findings \<Rightarrow> findings" where
  "phoneFindings cfg t = (\<lambda>(vs, fs, c).
     if checkPhoneNumbers cfg then
       (let phoneResult = detectPhoneNumbers cfg t
        in if length phoneResult > 0
           then (vs @ [''phone_number''], fs @ map match_text phoneResult,
                 max c (maxOf (map confidence phoneResult)))
           else (vs, fs, c))
     else (vs, fs, c))"

definition inappropriateFindings :: "moderationConfig \<Rightarrow> string \<Rightarrow> findings \<Rightarrow> findings" where
  "inappropriateFindings cfg t = (\<lambda>(vs, fs, c).
     if checkInappropriateContent cfg then
       (let r = detectInappropriateContent t
        in if length (ic_violations r) > 0
           then (vs @ ic_violations r, fs @ ic_flaggedContent r, max c (ic_confidence r))
           else (vs, fs, c))
     else (vs, fs, c))"

definition spamFindings :: "moderationConfig \<Rightarrow> string \<Rightarrow> findings \<Rightarrow> findings" where
  "spamFindings cfg t = (\<lambda>(vs, fs, c).
     if checkSpam cfg then
       (let r = detectSpam t
        in if isSpam r
           then (vs @ [''spam''], fs @ spam_flaggedContent r, max c (spam_confidence r))
           else (vs, fs, c))
     else (vs, fs, c))"

definition customFindings :: "moderationConfig \<Rightarrow> string \<Rightarrow> findings \<Rightarrow> findings" where
  "customFindings cfg t = (\<lambda>(vs, fs, c).
     let customResult = checkCustomBlockedWords cfg t
     in if length customResult > 0
        then (vs @ [''custom_blocked''], fs @ customResult, max c (9 / 10))
        else (vs, fs, c))"

definition moderateContent :: "moderationConfig \<Rightarrow> string \<Rightarrow> moderationResult" where
  "moderateContent cfg t =
     (case customFindings cfg t (spamFindings cfg t (inappropriateFindings cfg t
             (phoneFindings cfg t ([], [], 0)))) of
        (vs, fs, maxConfidence) \<Rightarrow>
          \<lparr> isViolation = (length vs > 0),
            violationType = vs,
            result_confidence = maxConfidence,
            flaggedContent = uniq fs,
            suggestions = generateSuggestions vs \<rparr>)"

text \<open>
  \<open>sanitizeText\<close> asks a moderator with the default configuration; on a violation it
  replaces every occurrence of every flagged string, compared without case, by as many
  stars as the flagged string is long.
\<close>

definition sanitizeText :: "string \<Rightarrow> string" where
  "sanitizeText t =
     (let result = moderateContent defaultConfig t
      in if \<not> isViolation result then t
         else fold (\<lambda>flagged sanitized.
                      replaceAll (lit_i flagged) (replicate (length flagged) CHR ''*'')
                        0 None sanitized)
                (flaggedContent result) t)"

section \<open>Sending a message (POST /api/messages)\<close>

text \<open>
  The two patterns of \<open>containsPhoneNumber\<close> are module-level regular expressions with
  the flag \<open>g\<close>, so each keeps its \<open>lastIndex\<close> from one request to the next.
\<close>

definition phoneNumberRegex :: rx where
  "phoneNumberRegex =
     alts [ seqs [Opt (seqs [Opt (chr CHR ''+''), Opt (chr CHR ''1''), optSep]),
                  Opt (chr CHR ''(''), digits3, Opt (chr CHR '')''), optSep, digits3, optSep,
                  digits4],
            exactly 10 is_digit,
            seqs [digits3, optSep, digits3, optSep, digits4],
            seqs [chr CHR ''('', digits3, chr CHR '')'', Opt (Atom is_space), digits3, optSep,
                  digits4] ]"

definition phoneWordRegex :: rx where
  "phoneWordRegex =
     alts (map lit_i [''zero'', ''one'', ''two'', ''three'', ''four'', ''five'', ''six'',
                      ''seven'', ''eight'', ''nine'', ''oh''])"

record regexState =
  phoneNumberRegex_lastIndex :: nat
  phoneWordRegex_lastIndex :: nat

definition initialRegexState :: regexState where
  "initialRegexState = \<lparr> phoneNumberRegex_lastIndex = 0, phoneWordRegex_lastIndex = 0 \<rparr>"

text \<open>\<open>a.test(text) || b.test(text)\<close>: the second test runs only if the first fails.\<close>

definition containsPhoneNumber :: "regexState \<Rightarrow> string \<Rightarrow> bool \<times> regexState" where
  "containsPhoneNumber rs t =
     (case rx_test_global phoneNumberRegex (phoneNumberRegex_lastIndex rs) t of
        (b1, i1) \<Rightarrow>
          if b1 then (True, rs\<lparr>phoneNumberRegex_lastIndex := i1\<rparr>)
          else (case rx_test_global phoneWordRegex (phoneWordRegex_lastIndex rs) t of
                  (b2, i2) \<Rightarrow>
                    (b2, rs\<lparr>phoneNumberRegex_lastIndex := i1, phoneWordRegex_lastIndex := i2\<rparr>)))"

definition postMessage ::
  "store \<Rightarrow> regexState \<Rightarrow> timestamp \<Rightarrow> insertMessage \<Rightarrow> message response \<times> store \<times> regexState" where
  "postMessage s rs now d =
     (case containsPhoneNumber rs (content d) of
        (True, rs1) \<Rightarrow>
          (let (v, s1) = createViolation s now
                  \<lparr> userId = senderId d, violation_type = ''phone_number'',
                    violation_content = content d, fineAmount = 100 \<rparr>;
               (updated, s2) = updateUser s1 (senderId d)
                  (\<lambda>u. u\<lparr>suspendedUntil := Some (now + 24 * 60 * 60 * 1000)\<rparr>)
           in (Status 403
                 ''Message contains phone number. Account suspended. $100 fine to restore account.'',
               s2, rs1))
      | (False, rs1) \<Rightarrow>
          (let (m, s1) = createMessage s now d in (Json m, s1, rs1)))"

section \<open>Notions and data for the properties\<close>

subsection \<open>Swipes of a pair\<close>

text \<open>The swipes of the ordered pair, in insertion order.\<close>

definition swipesOf :: "store \<Rightarrow> int \<Rightarrow> int \<Rightarrow> swipe list" where
  "swipesOf s a b = filter (\<lambda>sw. swiperId sw = a \<and> swipedId sw = b) (map snd (swipes s))"

text \<open>
  What every store reached through the swipe handler satisfies: the ids in use lie
  below the counters, an ordered pair has at most one swipe, and a pair of users has one
  match if each likes the other and none otherwise.
\<close>

definition swipeInv :: "store \<Rightarrow> bool" where
  "swipeInv s \<longleftrightarrow>
     (\<forall>k \<in> fst ` set (swipes s). k < currentSwipeId s) \<and>
     (\<forall>k \<in> fst ` set (matches s). k < currentMatchId s) \<and>
     (\<forall>a b. length (swipesOf s a b) \<le> 1) \<and>
     (\<forall>a b. length (matchesBetween s a b) = (if likes s a b \<and> likes s b a then 1 else 0))"

text \<open>Whether the handler creates a match for a new swipe, as the code decides it.\<close>

definition reciprocalLike :: "store \<Rightarrow> timestamp \<Rightarrow> insertSwipe \<Rightarrow> bool" where
  "reciprocalLike s now d \<longleftrightarrow>
     action d = Like \<and>
     (case getSwipe (snd (createSwipe s now d)) (swipedId d) (swiperId d) of
        None \<Rightarrow> False | Some r \<Rightarrow> action r = Like)"

text \<open>The violation that the message handler records for a sender.\<close>

definition phoneViolation :: "store \<Rightarrow> timestamp \<Rightarrow> insertMessage \<Rightarrow> violation" where
  "phoneViolation s now d =
     \<lparr> userId = senderId d, violation_type = ''phone_number'', violation_content = content d,
       fineAmount = 100, violation_id = currentViolationId s,
       violation_status = ViolationPending, violation_createdAt = now \<rparr>"

subsection \<open>The spam score in the words of the specification\<close>

text \<open>
  The specified score: 0.2 for each keyword of the list \<open>spam\<close> that the lower-cased
  text contains, 0.3 if more than half of the code units are upper-case letters, 0.2 if
  two neighbouring code units are \<open>!\<close> or \<open>?\<close>, and 0.2 if some word, compared in
  lower case, occurs more than 3 times.
\<close>

fun hasPunctRun :: "string \<Rightarrow> bool" where
  "hasPunctRun (a # b # cs) = ((oneOf ''!?'' a \<and> oneOf ''!?'' b) \<or> hasPunctRun (b # cs))"
| "hasPunctRun cs = False"

definition wordRepeated :: "string \<Rightarrow> bool" where
  "wordRepeated t =
     (let ws = map toLowerCase (split_whitespace t) in list_ex (\<lambda>w. count_list ws w > 3) ws)"

definition spec_spamScore :: "string \<Rightarrow> real" where
  "spec_spamScore t =
     real (length (filter (\<lambda>w. str_includes (toLowerCase t) w) spam)) * (2 / 10)
     + (if t \<noteq> [] \<and> real (length (filter is_upper t)) / real (length t) > 5 / 10
        then 3 / 10 else 0)
     + (if hasPunctRun t then 2 / 10 else 0)
     + (if wordRepeated t then 2 / 10 else 0)"

text \<open>
  Word counts that are numbers throughout, under distinct keys, and the count they hold
  for a key.
\<close>

definition goodCounts :: "(string \<times> count_value) list \<Rightarrow> bool" where
  "goodCounts acc \<longleftrightarrow>
     distinct (map fst acc) \<and> (\<forall>k v. map_of acc k = Some v \<longrightarrow> (\<exists>n>0. v = Count n))"

definition countOf :: "(string \<times> count_value) list \<Rightarrow> string \<Rightarrow> nat" where
  "countOf acc k = (case map_of acc k of Some (Count n) \<Rightarrow> n | _ \<Rightarrow> 0)"

subsection \<open>Example data\<close>

text \<open>
  A user with the given id whose latitude, longitude and wallet balance are the decimal
  strings that denote the given values, and a store of such users.
\<close>

definition mkUser :: "int \<Rightarrow> real option \<Rightarrow> real option \<Rightarrow> real \<Rightarrow> user" where
  "mkUser i la lo bal = \<lparr> uid = i, username = [], email = [],
     latitude = map_option numberValue la, longitude = map_option numberValue lo,
     walletBalance = numberValue bal, suspendedUntil = None \<rparr>"

definition storeOf :: "user list \<Rightarrow> store" where
  "storeOf us = emptyStore\<lparr>users := map (\<lambda>u. (uid u, u)) us\<rparr>"

text \<open>A request of user \<open>i\<close> for a blind date at \<open>(0, 0)\<close> for the amount of the decimal \<open>a\<close>.\<close>

definition blindDateRequest :: "int \<Rightarrow> real \<Rightarrow> insertBlindDate" where
  "blindDateRequest i a = \<lparr> user1Id = i, radius = 5, centerLat = Num 0, centerLng = Num 0,
     amount = numberValue a \<rparr>"

text \<open>
  Four users with 250, 100, 100 and 40 in their wallets; then the blind date of user 1
  for 100 is stored and the 100 are taken from the wallet of user 1, by the two calls of
  the storage that the create handler makes; then user 2 joins it.
\<close>

definition walletStore :: store where
  "walletStore = storeOf [mkUser 1 None None 250, mkUser 2 None None 100,
                          mkUser 3 None None 100, mkUser 4 None None 40]"

definition pendingStore :: store where
  "pendingStore =
     snd (updateUser (snd (createBlindDate walletStore 1000 (blindDateRequest 1 100))) 1
            (\<lambda>u. u\<lparr>walletBalance := numberValue 150\<rparr>))"

definition matchedStore :: store where
  "matchedStore = snd (joinBlindDate pendingStore 2000 1 2)"

text \<open>
  Users 2, 3 and 4 with 0.30, 100.10 and 0.12 in their wallets, and four pending blind
  dates of user 1, for 0.10, for 0.20, for 100.00 and for 0.02.
\<close>

definition changeStore :: store where
  "changeStore =
     snd (createBlindDate
       (snd (createBlindDate
         (snd (createBlindDate
           (snd (createBlindDate
             (storeOf [mkUser 1 None None 0, mkUser 2 None None (30 / 100),
                       mkUser 3 None None (10010 / 100), mkUser 4 None None (12 / 100)])
             1000 (blindDateRequest 1 (10 / 100))))
           1000 (blindDateRequest 1 (20 / 100))))
         1000 (blindDateRequest 1 (10000 / 100))))
       1000 (blindDateRequest 1 (2 / 100)))"

text \<open>User 1 likes user 2; then user 2 likes user 1.\<close>

definition swipeRequest :: "int \<Rightarrow> int \<Rightarrow> swipe_action \<Rightarrow> insertSwipe" where
  "swipeRequest a b act = \<lparr> swiperId = a, swipedId = b, action = act \<rparr>"

definition likeStore :: store where
  "likeStore = runSwipes emptyStore [(1000, swipeRequest 1 2 Like)]"

definition mutualLikeStore :: store where
  "mutualLikeStore =
     runSwipes emptyStore [(1000, swipeRequest 1 2 Like), (2000, swipeRequest 2 1 Like)]"

definition messageRequest :: "int \<Rightarrow> string \<Rightarrow> insertMessage" where
  "messageRequest sender t = \<lparr> matchId = 1, senderId = sender, content = t \<rparr>"

text \<open>The texts of the scenarios.\<close>

definition spelledExample :: string where
  "spelledExample = ''my number is five five five one two three four five six seven''"

definition spamExample :: string where
  "spamExample = ''BUY NOW!!! BUY NOW!!! BUY NOW!!! BUY NOW!!!''"

definition plainSpamExample :: string where
  "plainSpamExample = ''buy now!! x x x x''"

definition constructorExample :: string where
  "constructorExample = ''buy now!! x x x x constructor''"

section \<open>Evaluating the character classes\<close>

text \<open>
  The classes are defined by ranges of the character code. On \<open>Char b0 \<dots> b7\<close> each
  range is a condition on the eight bits, checked here over all 256 code units; the
  evaluations of concrete texts below use these forms.
\<close>

lemma is_digit_Char:
  "is_digit (Char b0 b1 b2 b3 b4 b5 b6 b7) \<longleftrightarrow>
     \<not> b7 \<and> \<not> b6 \<and> b5 \<and> b4 \<and> (\<not> b3 \<or> (\<not> b2 \<and> \<not> b1))"
  by (cases b0; cases b1; cases b2; cases b3; cases b4; cases b5; cases b6; cases b7;
      simp add: is_digit_def charCode_def)

lemma is_upper_Char:
  "is_upper (Char b0 b1 b2 b3 b4 b5 b6 b7) \<longleftrightarrow>
     \<not> b7 \<and> b6 \<and> \<not> b5 \<and> (b4 \<or> b3 \<or> b2 \<or> b1 \<or> b0) \<and> \<not> (b4 \<and> b3 \<and> (b2 \<or> (b1 \<and> b0)))"
  by (cases b0; cases b1; cases b2; cases b3; cases b4; cases b5; cases b6; cases b7;
      simp add: is_upper_def charCode_def)

lemma is_lower_Char:
  "is_lower (Char b0 b1 b2 b3 b4 b5 b6 b7) \<longleftrightarrow>
     \<not> b7 \<and> b6 \<and> b5 \<and> (b4 \<or> b3 \<or> b2 \<or> b1 \<or> b0) \<and> \<not> (b4 \<and> b3 \<and> (b2 \<or> (b1 \<and> b0)))"
  by (cases b0; cases b1; cases b2; cases b3; cases b4; cases b5; cases b6; cases b7;
      simp add: is_lower_def charCode_def)

lemma is_space_Char:
  "is_space (Char b0 b1 b2 b3 b4 b5 b6 b7) \<longleftrightarrow>
     (\<not> b7 \<and> \<not> b6 \<and> \<not> b5 \<and> \<not> b4 \<and> b3 \<and> (b2 \<or> b1 \<or> b0) \<and> \<not> (b2 \<and> b1)) \<or>
     (\<not> b6 \<and> b5 \<and> \<not> b4 \<and> \<not> b3 \<and> \<not> b2 \<and> \<not> b1 \<and> \<not> b0)"
  by (cases b0; cases b1; cases b2; cases b3; cases b4; cases b5; cases b6; cases b7;
      simp add: is_space_def charCode_def)

lemma has_lower_form_Char:
  "has_lower_form (Char b0 b1 b2 b3 b4 b5 b6 b7) \<longleftrightarrow>
     (\<not> b7 \<and> b6 \<and> \<not> b5 \<and> (b4 \<or> b3 \<or> b2 \<or> b1 \<or> b0) \<and> \<not> (b4 \<and> b3 \<and> (b2 \<or> (b1 \<and> b0)))) \<or>
     (b7 \<and> b6 \<and> \<not> b5 \<and> \<not> (b4 \<and> b3 \<and> b2 \<and> b1 \<and> b0) \<and> \<not> (b4 \<and> \<not> b3 \<and> b2 \<and> b1 \<and> b0))"
  by (cases b0; cases b1; cases b2; cases b3; cases b4; cases b5; cases b6; cases b7;
      simp add: has_lower_form_def charCode_def)

lemma has_upper_form_Char:
  "has_upper_form (Char b0 b1 b2 b3 b4 b5 b6 b7) \<longleftrightarrow>
     (\<not> b7 \<and> b6 \<and> b5 \<and> (b4 \<or> b3 \<or> b2 \<or> b1 \<or> b0) \<and> \<not> (b4 \<and> b3 \<and> (b2 \<or> (b1 \<and> b0)))) \<or>
     (b7 \<and> b6 \<and> b5 \<and> \<not> (b4 \<and> b3 \<and> b2 \<and> b1 \<and> b0) \<and> \<not> (b4 \<and> \<not> b3 \<and> b2 \<and> b1 \<and> b0))"
  by (cases b0; cases b1; cases b2; cases b3; cases b4; cases b5; cases b6; cases b7;
      simp add: has_upper_form_def charCode_def)

text \<open>Setting and clearing the bit is adding and subtracting 32.\<close>

lemma toLowerChar_charCode:
  "charCode (toLowerChar c) = (if has_lower_form c then charCode c + 32 else charCode c)"
proof (cases c)
  case (Char b0 b1 b2 b3 b4 b5 b6 b7)
  have "has_lower_form (Char b0 b1 b2 b3 b4 b5 b6 b7) \<longrightarrow> \<not> b5"
    by (simp add: has_lower_form_Char)
  then show ?thesis
    by (auto simp: Char charCode_def)
qed

lemma canonicalize_charCode:
  "charCode (canonicalize c) = (if has_upper_form c then charCode c - 32 else charCode c)"
proof (cases c)
  case (Char b0 b1 b2 b3 b4 b5 b6 b7)
  have "has_upper_form (Char b0 b1 b2 b3 b4 b5 b6 b7) \<longrightarrow> b5"
    by (simp add: has_upper_form_Char)
  then show ?thesis
    by (auto simp: Char charCode_def)
qed

lemmas char_eval = is_digit_Char is_upper_Char is_lower_Char is_space_Char has_lower_form_Char
  has_upper_form_Char is_word_def toLowerCase_def oneOf_def sep_def symbol_def

lemmas rx_eval = rx_test_def rx_test_global_def rx_empty_def chr_def chr_i_def exactly_def lit_def
  lit_i_def digits3_def digits4_def optSep_def separatorWord_def Let_def

section \<open>The rounding of numbers\<close>

text \<open>
  The functions on numbers compute what IEEE 754 prescribes: \<^const>\<open>bitlen\<close>,
  \<^const>\<open>ilog2\<close> and \<^const>\<open>isqrt\<close> are the bit length, the binary exponent and the
  integer square root; \<^const>\<open>numberValue\<close> returns a multiple of the unit in the last
  place, with a significand of at most 53 bits, that is at most half a unit away from
  its argument, and it keeps every double; \<^const>\<open>Math_sqrt\<close> is the square root of the
  reals followed by \<^const>\<open>numberValue\<close>.
\<close>

lemma bitlen_Suc:
  "0 < n \<Longrightarrow> \<exists>k. bitlen n = int (Suc k) \<and> 2 ^ k \<le> n \<and> n < 2 ^ Suc k"
proof (induction n rule: bitlen.induct)
  case (1 n)
  have n: "\<not> n \<le> 0" using 1(2) by simp
  have eq: "bitlen n = 1 + bitlen (n div 2)" using n by (subst bitlen.simps) simp
  show ?case
  proof (cases "n = 1")
    case True
    have "bitlen 0 = 0" by (subst bitlen.simps) simp
    then have "bitlen n = int (Suc 0)" using eq True by simp
    moreover have "(2::int) ^ 0 \<le> n" "n < 2 ^ Suc 0" using True by simp_all
    ultimately show ?thesis by blast
  next
    case False
    with 1(2) have m: "0 < n div 2" by simp
    from 1(1) [OF n m] obtain k where b: "bitlen (n div 2) = int (Suc k)"
      and lo: "2 ^ k \<le> n div 2" and hi: "n div 2 < 2 ^ Suc k" by blast
    have "bitlen n = int (Suc (Suc k))" using eq b by simp
    moreover have "(2::int) ^ Suc k \<le> n" using lo by simp
    moreover have "n < 2 ^ Suc (Suc k)" using hi by simp
    ultimately show ?thesis by blast
  qed
qed

lemma pow2_power_int: "pow2 e = 2 powi e"
  by (simp add: pow2_def power_int_def inverse_eq_divide power_one_over)

lemma pow2_pos: "0 < pow2 e"
  by (simp add: pow2_power_int)

lemma pow2_add: "pow2 (a + b) = pow2 a * pow2 b"
  by (simp add: pow2_power_int power_int_add)

lemma pow2_nat: "pow2 (int k) = 2 ^ k"
  by (simp add: pow2_def)

lemma pow2_neg_nat: "pow2 (- int k) = 1 / 2 ^ k"
  by (cases k) (simp_all add: pow2_def nat_add_distrib)

lemma pow2_mono: "a \<le> b \<Longrightarrow> pow2 a \<le> pow2 b"
  by (simp add: pow2_power_int power_int_increasing)

lemma ilog2_bounds:
  assumes "0 < x"
  shows "pow2 (ilog2 x) \<le> x \<and> x < pow2 (ilog2 x + 1)"
proof (cases "1 \<le> x")
  case True
  then have n: "0 < \<lfloor>x\<rfloor>" by simp
  from bitlen_Suc [OF n] obtain k where b: "bitlen \<lfloor>x\<rfloor> = int (Suc k)"
    and lo: "2 ^ k \<le> \<lfloor>x\<rfloor>" and hi: "\<lfloor>x\<rfloor> < 2 ^ Suc k" by blast
  have e: "ilog2 x = int k" using True b by (simp add: ilog2_def)
  have "(2::real) ^ k \<le> of_int \<lfloor>x\<rfloor>" using lo by (metis of_int_le_iff of_int_numeral of_int_power)
  also have "\<dots> \<le> x" by simp
  finally have 1: "pow2 (ilog2 x) \<le> x" by (simp add: e pow2_nat)
  have "\<lfloor>x\<rfloor> + 1 \<le> 2 ^ Suc k" using hi by simp
  then have "of_int (\<lfloor>x\<rfloor> + 1) \<le> (2::real) ^ Suc k"
    by (metis of_int_le_iff of_int_numeral of_int_power)
  moreover have "x < of_int (\<lfloor>x\<rfloor> + 1)" by linarith
  ultimately have "x < 2 ^ Suc k" by linarith
  moreover have "pow2 (ilog2 x + 1) = 2 ^ Suc k"
    using pow2_nat [of "Suc k"] by (simp add: e add.commute)
  ultimately show ?thesis using 1 by simp
next
  case False
  then have x1: "x < 1" by simp
  then have y: "1 < 1 / x" using assms by simp
  then have c: "2 \<le> \<lceil>1 / x\<rceil>" by linarith
  then have n: "0 < \<lceil>1 / x\<rceil> - 1" by simp
  from bitlen_Suc [OF n] obtain k where b: "bitlen (\<lceil>1 / x\<rceil> - 1) = int (Suc k)"
    and lo: "2 ^ k \<le> \<lceil>1 / x\<rceil> - 1" and hi: "\<lceil>1 / x\<rceil> - 1 < 2 ^ Suc k" by blast
  have e: "ilog2 x = - int (Suc k)" using False b by (simp add: ilog2_def)
  have "\<lceil>1 / x\<rceil> \<le> 2 ^ Suc k" using hi by simp
  then have "of_int \<lceil>1 / x\<rceil> \<le> (2::real) ^ Suc k"
    by (metis of_int_le_iff of_int_numeral of_int_power)
  moreover have "1 / x \<le> of_int \<lceil>1 / x\<rceil>" by simp
  ultimately have "1 / x \<le> 2 ^ Suc k" by linarith
  then have "1 \<le> 2 ^ Suc k * x" using assms by (simp add: field_simps)
  then have 1: "1 / 2 ^ Suc k \<le> x" by (simp add: field_simps)
  have "(2::real) ^ k \<le> of_int (\<lceil>1 / x\<rceil> - 1)"
    using lo by (metis of_int_le_iff of_int_numeral of_int_power)
  moreover have "of_int (\<lceil>1 / x\<rceil> - 1) < 1 / x" by linarith
  ultimately have "2 ^ k < 1 / x" by linarith
  then have "2 ^ k * x < 1" using assms by (simp add: field_simps)
  then have 2: "x < 1 / 2 ^ k" by (simp add: field_simps)
  have "ilog2 x + 1 = - int k" using e by simp
  then have "pow2 (ilog2 x + 1) = 1 / 2 ^ k" using pow2_neg_nat [of k] by simp
  moreover have "pow2 (ilog2 x) = 1 / 2 ^ Suc k" using pow2_neg_nat [of "Suc k"] e by simp
  ultimately show ?thesis using 1 2 by simp
qed

lemma isqrt_bounds:
  "0 \<le> n \<Longrightarrow> 0 \<le> isqrt n \<and> (isqrt n)\<^sup>2 \<le> n \<and> n < (isqrt n + 1)\<^sup>2"
proof (induction n rule: isqrt.induct)
  case (1 n)
  show ?case
  proof (cases "n < 2")
    case True
    then have "isqrt n = n" by (subst isqrt.simps) simp
    moreover have "n = 0 \<or> n = 1" using True 1(2) by auto
    ultimately show ?thesis by auto
  next
    case False
    define r0 where "r0 = isqrt (n div 4)"
    have "0 \<le> n div 4" using 1(2) by simp
    from 1(1) [OF False this] have r0: "0 \<le> r0" and lo: "r0\<^sup>2 \<le> n div 4"
      and hi: "n div 4 < (r0 + 1)\<^sup>2" by (simp_all add: r0_def)
    have eq: "isqrt n = (if (2 * r0 + 1)\<^sup>2 \<le> n then 2 * r0 + 1 else 2 * r0)"
      using False by (subst isqrt.simps) (simp add: Let_def r0_def)
    have a: "(2 * r0)\<^sup>2 \<le> n"
    proof -
      have "(2 * r0)\<^sup>2 = 4 * r0\<^sup>2" by (simp add: power2_eq_square)
      also have "\<dots> \<le> 4 * (n div 4)" using lo by simp
      also have "\<dots> \<le> n" by simp
      finally show ?thesis .
    qed
    have b: "n < (2 * r0 + 2)\<^sup>2"
    proof -
      have "n div 4 + 1 \<le> (r0 + 1)\<^sup>2" using hi by simp
      then have "4 * (n div 4) + 4 \<le> 4 * (r0 + 1)\<^sup>2" by simp
      moreover have "n < 4 * (n div 4) + 4" by simp
      moreover have "4 * (r0 + 1)\<^sup>2 = (2 * r0 + 2)\<^sup>2" by (simp add: power2_eq_square algebra_simps)
      ultimately show ?thesis by simp
    qed
    show ?thesis
    proof (cases "(2 * r0 + 1)\<^sup>2 \<le> n")
      case True
      then have "isqrt n = 2 * r0 + 1" using eq by simp
      then show ?thesis using True b r0 by (simp add: algebra_simps)
    next
      case False
      then have "isqrt n = 2 * r0" using eq by simp
      then show ?thesis using False a r0 by simp
    qed
  qed
qed

lemma roundHalfEven_near: "\<bar>q - of_int (roundHalfEven q)\<bar> \<le> 1 / 2"
proof -
  have "of_int \<lfloor>q\<rfloor> \<le> q" "q < of_int \<lfloor>q\<rfloor> + 1" by linarith+
  then show ?thesis by (auto simp: roundHalfEven_def Let_def)
qed

lemma pow2_strict_mono: "a < b \<Longrightarrow> pow2 a < pow2 b"
  by (simp add: pow2_power_int power_int_strict_increasing)

lemma ilog2_unique:
  assumes "pow2 j \<le> x" and "x < pow2 (j + 1)"
  shows "ilog2 x = j"
proof -
  have x: "0 < x" using assms(1) pow2_pos [of j] by linarith
  from ilog2_bounds [OF x] have lo: "pow2 (ilog2 x) \<le> x" and hi: "x < pow2 (ilog2 x + 1)"
    by simp_all
  have "\<not> j + 1 \<le> ilog2 x"
  proof
    assume "j + 1 \<le> ilog2 x"
    then have "pow2 (j + 1) \<le> pow2 (ilog2 x)" by (rule pow2_mono)
    with lo assms(2) show False by linarith
  qed
  moreover have "\<not> ilog2 x + 1 \<le> j"
  proof
    assume "ilog2 x + 1 \<le> j"
    then have "pow2 (ilog2 x + 1) \<le> pow2 j" by (rule pow2_mono)
    with hi assms(1) show False by linarith
  qed
  ultimately show ?thesis by linarith
qed

lemma roundHalfEven_between:
  assumes E: "0 < E" and lo: "of_int s < a" and hi: "a < of_int s + 1"
  shows "roundHalfEven (a / 2 ^ E)
           = (if s mod 2 ^ E < 2 ^ (E - 1) then s div 2 ^ E else s div 2 ^ E + 1)"
proof -
  define P :: int where "P = 2 ^ E"
  define h :: int where "h = 2 ^ (E - 1)"
  define d where "d = s div P"
  define r where "r = s mod P"
  have P: "P = 2 * h" using E by (cases E) (simp_all add: P_def h_def)
  have h: "0 < h" by (simp add: h_def)
  have s: "s = d * P + r" by (simp add: d_def r_def)
  have r: "0 \<le> r" "r < P" using h P by (simp_all add: r_def)
  have rP: "(2::real) ^ E = of_int P" by (simp add: P_def)
  have Ppos: "0 < (of_int P :: real)" using h P by simp
  define t where "t = a - of_int s"
  have t: "0 < t" "t < 1" using lo hi by (simp_all add: t_def)
  have a: "a = of_int d * of_int P + of_int r + t" by (simp add: t_def s)
  have q: "a / of_int P = of_int d + (of_int r + t) / of_int P"
    using Ppos by (simp add: a field_simps)
  have f0: "0 \<le> (of_int r + t) / (of_int P :: real)" using r t Ppos by simp
  have "of_int r + t < (of_int P :: real)"
  proof -
    have "r + 1 \<le> P" using r by simp
    then have "(of_int (r + 1) :: real) \<le> of_int P" by (simp only: of_int_le_iff)
    then show ?thesis using t by simp
  qed
  then have f1: "(of_int r + t) / (of_int P :: real) < 1" using Ppos by simp
  have fl: "\<lfloor>a / of_int P\<rfloor> = d" using f0 f1 by (simp add: q floor_eq_iff)
  have frac: "a / of_int P - of_int d = (of_int r + t) / of_int P" by (simp add: q)
  have half: "(of_int P :: real) = 2 * of_int h" by (simp add: P)
  show ?thesis
  proof (cases "r < h")
    case True
    then have "r + 1 \<le> h" by simp
    then have "(of_int (r + 1) :: real) \<le> of_int h" by (simp only: of_int_le_iff)
    then have "(of_int r + t) < (of_int h :: real)" using t by simp
    then have "(of_int r + t) / (of_int P :: real) < 1 / 2"
      using h by (simp add: half field_simps)
    then have "roundHalfEven (a / of_int P) = d"
      unfolding roundHalfEven_def Let_def fl frac by (simp only: if_True)
    then show ?thesis using True by (simp add: rP) (simp add: P_def h_def d_def r_def)
  next
    case False
    then have "h \<le> r" by simp
    then have "(of_int h :: real) \<le> of_int r" by (simp only: of_int_le_iff)
    then have "(of_int h :: real) < of_int r + t" using t by simp
    then have g: "1 / 2 < (of_int r + t) / (of_int P :: real)"
      using h by (simp add: half field_simps)
    then have "\<not> (of_int r + t) / (of_int P :: real) < 1 / 2" by simp
    with g have "roundHalfEven (a / of_int P) = d + 1"
      unfolding roundHalfEven_def Let_def fl frac by (simp only: if_True if_False)
    then show ?thesis using False by (simp add: rP) (simp add: P_def h_def d_def r_def)
  qed
qed

lemma numberValue_between:
  fixes s :: int
  assumes s: "2 ^ 54 \<le> s"
    and a: "of_int s < a" "a < of_int s + 1"
    and b: "of_int s < b" "b < of_int s + 1"
  shows "numberValue (a * pow2 (- k)) = numberValue (b * pow2 (- k))"
proof -
  have "(0::int) < 2 ^ 54" by simp
  with s have spos: "0 < s" by linarith
  from bitlen_Suc [OF spos] obtain j where lo: "2 ^ j \<le> s" and hi: "s < 2 ^ Suc j" by blast
  have j: "54 \<le> j"
  proof (rule ccontr)
    assume "\<not> 54 \<le> j"
    then have "Suc j \<le> 54" by simp
    then have "(2::int) ^ Suc j \<le> 2 ^ 54" by (rule power_increasing) simp
    with s hi show False by linarith
  qed
  define e where "e = max (int j - k - 52) (- 1074)"
  define En where "En = nat (e + k)"
  have E: "e + k = int En" "0 < En" using j by (simp_all add: En_def e_def)
  define R where "R = (if s mod 2 ^ En < 2 ^ (En - 1) then s div 2 ^ En else s div 2 ^ En + 1)"
  have val: "numberValue (c * pow2 (- k)) =
      (if pow2 1024 \<le> of_int R * pow2 e then PlusInfinity else Num (of_int R * pow2 e))"
    if c: "of_int s < c" "c < of_int s + 1" for c
  proof -
    have rlo: "(2::real) ^ j \<le> of_int s"
      using lo by (metis of_int_le_iff of_int_numeral of_int_power)
    have "s + 1 \<le> 2 ^ Suc j" using hi by simp
    then have rhi: "of_int (s + 1) \<le> (2::real) ^ Suc j"
      by (metis of_int_le_iff of_int_numeral of_int_power)
    have "(0::real) < of_int s" using spos by simp
    with c(1) have c0: "0 < c" by linarith
    have p: "0 < pow2 (- k)" by (rule pow2_pos)
    have rhi': "of_int s + 1 \<le> (2::real) ^ Suc j"
      using rhi by (simp only: of_int_add of_int_1)
    have "pow2 (int j) \<le> c" unfolding pow2_nat using rlo c(1) by linarith
    then have "pow2 (int j) * pow2 (- k) \<le> c * pow2 (- k)" using p by simp
    moreover have "pow2 (int j - k) = pow2 (int j) * pow2 (- k)"
    proof -
      have "int j - k = int j + (- k)" by simp
      then show ?thesis by (simp only: pow2_add)
    qed
    ultimately have l1: "pow2 (int j - k) \<le> c * pow2 (- k)" by (simp only:)
    have "c < pow2 (int (Suc j))" unfolding pow2_nat using rhi' c(2) by linarith
    then have "c * pow2 (- k) < pow2 (int (Suc j)) * pow2 (- k)" using p by simp
    moreover have "pow2 (int j - k + 1) = pow2 (int (Suc j)) * pow2 (- k)"
    proof -
      have "int j - k + 1 = int (Suc j) + (- k)" by simp
      then show ?thesis by (simp only: pow2_add)
    qed
    ultimately have l2: "c * pow2 (- k) < pow2 (int j - k + 1)" by (simp only:)
    have il: "ilog2 (c * pow2 (- k)) = int j - k" by (rule ilog2_unique [OF l1 l2])
    have pos: "0 < c * pow2 (- k)" using c0 p by simp
    have "pow2 (- k) = pow2 e * pow2 (- int En)"
    proof -
      have "- k = e + (- int En)" using E(1) by simp
      then show ?thesis by (simp only: pow2_add)
    qed
    then have "c * pow2 (- k) / pow2 e = c * pow2 (- int En)"
      using pow2_pos [of e] by simp
    then have q: "c * pow2 (- k) / pow2 e = c / 2 ^ En" by (simp add: pow2_neg_nat)
    have "roundHalfEven (c / 2 ^ En) = R"
      unfolding R_def by (rule roundHalfEven_between [OF E(2) c])
    then show ?thesis using pos c0 p
      by (simp add: numberValue_def Let_def il e_def [symmetric] q)
  qed
  show ?thesis using val [OF a] val [OF b] by simp
qed

lemma Math_sqrt_correct:
  assumes x: "0 < x"
  shows "Math_sqrt (Num x) = numberValue (sqrt x)"
proof -
  define k where "k = (109 - ilog2 x) div 2"
  define y where "y = x * pow2 (2 * k)"
  define s where "s = isqrt \<lfloor>y\<rfloor>"
  have ms: "Math_sqrt (Num x) =
      numberValue ((of_int s + (if of_int (s\<^sup>2) = y then 0 else 1 / 2)) * pow2 (- k))"
    using x by (simp add: Let_def s_def y_def k_def)
  have y0: "0 < y" using x pow2_pos [of "2 * k"] by (simp add: y_def)
  have "108 \<le> ilog2 x + 2 * k" by (simp add: k_def)
  then have "pow2 108 \<le> pow2 (ilog2 x + 2 * k)" by (rule pow2_mono)
  also have "\<dots> = pow2 (ilog2 x) * pow2 (2 * k)" by (rule pow2_add)
  also have "\<dots> \<le> y"
    using ilog2_bounds [OF x] pow2_pos [of "2 * k"] by (simp add: y_def)
  finally have y108: "pow2 108 \<le> y" .
  have "pow2 108 = of_int (2 ^ 108)" using pow2_nat [of 108] by simp
  then have n108: "2 ^ 108 \<le> \<lfloor>y\<rfloor>" using y108 by (simp only: le_floor_iff)
  have n0: "0 \<le> \<lfloor>y\<rfloor>" using y0 by simp
  from isqrt_bounds [OF n0] have s0: "0 \<le> s" and slo: "s\<^sup>2 \<le> \<lfloor>y\<rfloor>" and shi: "\<lfloor>y\<rfloor> < (s + 1)\<^sup>2"
    by (simp_all add: s_def)
  have s54: "2 ^ 54 \<le> s"
  proof (rule ccontr)
    assume "\<not> 2 ^ 54 \<le> s"
    then have "s + 1 \<le> 2 ^ 54" by simp
    then have "(s + 1)\<^sup>2 \<le> (2 ^ 54)\<^sup>2" using s0 by (intro power_mono) simp_all
    also have "\<dots> = (2::int) ^ 108" by simp
    finally show False using shi n108 by linarith
  qed
  have lo: "(of_int s)\<^sup>2 \<le> y"
  proof -
    have "(of_int s :: real)\<^sup>2 = of_int (s\<^sup>2)" by simp
    also have "\<dots> \<le> of_int \<lfloor>y\<rfloor>" using slo by (simp only: of_int_le_iff)
    also have "\<dots> \<le> y" by simp
    finally show ?thesis .
  qed
  have hi: "y < (of_int s + 1)\<^sup>2"
  proof -
    have "\<lfloor>y\<rfloor> + 1 \<le> (s + 1)\<^sup>2" using shi by simp
    then have "(of_int (\<lfloor>y\<rfloor> + 1) :: real) \<le> of_int ((s + 1)\<^sup>2)" by (simp only: of_int_le_iff)
    moreover have "y < of_int (\<lfloor>y\<rfloor> + 1)" by linarith
    moreover have "(of_int ((s + 1)\<^sup>2) :: real) = (of_int s + 1)\<^sup>2" by simp
    ultimately show ?thesis by linarith
  qed
  have rs0: "0 \<le> (of_int s :: real)" using s0 by simp
  have le: "of_int s \<le> sqrt y" using lo by (rule real_le_rsqrt)
  have lt: "sqrt y < of_int s + 1" using y0 hi rs0 by (intro real_less_lsqrt) simp_all
  have sq: "sqrt x = sqrt y * pow2 (- k)"
  proof -
    have "pow2 (2 * k) * pow2 (- (2 * k)) = pow2 0"
      using pow2_add [of "2 * k" "- (2 * k)"] by simp
    then have "x = y * pow2 (- (2 * k))" by (simp add: y_def pow2_def)
    moreover have "pow2 (- (2 * k)) = (pow2 (- k))\<^sup>2"
      using pow2_add [of "- k" "- k"] by (simp add: power2_eq_square)
    ultimately have "sqrt x = sqrt y * sqrt ((pow2 (- k))\<^sup>2)" by (simp add: real_sqrt_mult)
    then show ?thesis using pow2_pos [of "- k"] by simp
  qed
  show ?thesis
  proof (cases "of_int (s\<^sup>2) = y")
    case True
    then have "y = (of_int s)\<^sup>2" by simp
    then have "sqrt y = of_int s" using rs0 by simp
    then show ?thesis unfolding ms sq using True by simp
  next
    case False
    then have "(of_int s)\<^sup>2 \<noteq> y" by simp
    then have "(of_int s)\<^sup>2 < y" using lo by simp
    then have lt0: "of_int s < sqrt y" by (rule real_less_rsqrt)
    have "numberValue ((of_int s + 1 / 2) * pow2 (- k)) = numberValue (sqrt y * pow2 (- k))"
      by (rule numberValue_between [OF s54 _ _ lt0 lt]) simp_all
    then show ?thesis unfolding ms sq using False by simp
  qed
qed

lemma numberValue_grid:
  assumes "x \<noteq> 0" and "numberValue x = Num y"
  shows "\<exists>m. \<bar>m\<bar> \<le> 2 ^ 53 \<and> y = of_int m * pow2 (max (ilog2 \<bar>x\<bar> - 52) (- 1074)) \<and>
             \<bar>x - y\<bar> \<le> pow2 (max (ilog2 \<bar>x\<bar> - 52) (- 1074)) / 2"
proof -
  define e where "e = max (ilog2 \<bar>x\<bar> - 52) (- 1074)"
  define m where "m = roundHalfEven (\<bar>x\<bar> / pow2 e)"
  have p: "0 < pow2 e" by (rule pow2_pos)
  have ax: "0 < \<bar>x\<bar>" using assms(1) by simp
  have "numberValue x =
      (if pow2 1024 \<le> of_int m * pow2 e then (if 0 < x then PlusInfinity else MinusInfinity)
       else Num (if 0 < x then of_int m * pow2 e else - (of_int m * pow2 e)))"
    unfolding numberValue_def Let_def m_def e_def by (simp only: assms(1) if_False)
  with assms(2) have y: "y = (if 0 < x then of_int m * pow2 e else - (of_int m * pow2 e))"
    by (simp split: if_splits)
  have near: "\<bar>\<bar>x\<bar> / pow2 e - of_int m\<bar> \<le> 1 / 2"
    unfolding m_def by (rule roundHalfEven_near)
  have "\<bar>\<bar>x\<bar> - of_int m * pow2 e\<bar> = \<bar>\<bar>x\<bar> / pow2 e - of_int m\<bar> * pow2 e"
  proof -
    have "\<bar>x\<bar> - of_int m * pow2 e = (\<bar>x\<bar> / pow2 e - of_int m) * pow2 e"
      using p by (simp add: field_simps)
    then show ?thesis using p by (simp add: abs_mult)
  qed
  also have "\<dots> \<le> 1 / 2 * pow2 e" using near p by (intro mult_right_mono) simp_all
  finally have d: "\<bar>\<bar>x\<bar> - of_int m * pow2 e\<bar> \<le> pow2 e / 2" by simp
  have q0: "0 \<le> \<bar>x\<bar> / pow2 e" using p by simp
  have "\<bar>x\<bar> < pow2 (ilog2 \<bar>x\<bar> + 1)" using ilog2_bounds [OF ax] by simp
  also have "\<dots> \<le> pow2 (e + 53)" by (rule pow2_mono) (simp add: e_def)
  also have "\<dots> = pow2 e * 2 ^ 53" using pow2_add [of e 53] pow2_nat [of 53] by simp
  finally have "\<bar>x\<bar> / pow2 e < 2 ^ 53" using p by (simp add: field_simps)
  then have "of_int m \<le> (2::real) ^ 53 + 1 / 2" using near by linarith
  then have "of_int m < (of_int (2 ^ 53 + 1) :: real)" by simp
  then have m1: "m < 2 ^ 53 + 1" by (simp only: of_int_less_iff)
  have "- (1 / 2) \<le> (of_int m :: real)" using near q0 by linarith
  then have "(of_int (- 1) :: real) < of_int m" by simp
  then have m0: "- 1 < m" by (simp only: of_int_less_iff)
  show ?thesis
  proof (cases "0 < x")
    case True
    then show ?thesis using y d m0 m1
      by (intro exI [of _ m]) (simp add: e_def)
  next
    case False
    then have "x - - (of_int m * pow2 e) = - (\<bar>x\<bar> - of_int m * pow2 e)" by simp
    then have "\<bar>x - - (of_int m * pow2 e)\<bar> = \<bar>\<bar>x\<bar> - of_int m * pow2 e\<bar>"
      by (simp only: abs_minus_cancel)
    then have "\<bar>x - - (of_int m * pow2 e)\<bar> \<le> pow2 e / 2"
      using d by (simp only:)
    then show ?thesis using False y m0 m1
      by (intro exI [of _ "- m"]) (simp add: e_def)
  qed
qed

lemma roundHalfEven_int: "roundHalfEven (of_int n) = n"
  by (simp add: roundHalfEven_def)

lemma numberValue_exact:
  assumes m: "\<bar>m\<bar> < 2 ^ 53" and e: "- 1074 \<le> e" and fin: "\<bar>of_int m * pow2 e\<bar> < pow2 1024"
  shows "numberValue (of_int m * pow2 e) = Num (of_int m * pow2 e)"
proof (cases "m = 0")
  case True
  then show ?thesis by (simp add: numberValue_def)
next
  case False
  define x where "x = of_int m * pow2 e"
  have p: "0 < pow2 e" by (rule pow2_pos)
  have x0: "x \<noteq> 0" using False p by (simp add: x_def)
  have ax: "\<bar>x\<bar> = of_int \<bar>m\<bar> * pow2 e" using p by (simp add: x_def abs_mult)
  define E where "E = max (ilog2 \<bar>x\<bar> - 52) (- 1074)"
  have "\<bar>m\<bar> + 1 \<le> 2 ^ 53" using m by simp
  then have "(of_int (\<bar>m\<bar> + 1) :: real) \<le> of_int (2 ^ 53)" by (simp only: of_int_le_iff)
  then have "(of_int \<bar>m\<bar> :: real) < 2 ^ 53" by simp
  then have "\<bar>x\<bar> < 2 ^ 53 * pow2 e" using p by (simp add: ax)
  also have "\<dots> = pow2 (53 + e)" using pow2_add [of 53 e] pow2_nat [of 53] by simp
  finally have up: "\<bar>x\<bar> < pow2 (53 + e)" .
  have "\<not> 53 + e \<le> ilog2 \<bar>x\<bar>"
  proof
    assume "53 + e \<le> ilog2 \<bar>x\<bar>"
    then have "pow2 (53 + e) \<le> pow2 (ilog2 \<bar>x\<bar>)" by (rule pow2_mono)
    moreover have "pow2 (ilog2 \<bar>x\<bar>) \<le> \<bar>x\<bar>" using ilog2_bounds [of "\<bar>x\<bar>"] x0 by simp
    ultimately show False using up by linarith
  qed
  then have Ee: "E \<le> e" using e by (simp add: E_def)
  define d where "d = nat (e - E)"
  have de: "e = E + int d" using Ee by (simp add: d_def)
  have pe: "pow2 e = pow2 E * 2 ^ d" using pow2_add [of E "int d"] by (simp add: de pow2_nat)
  have q: "\<bar>x\<bar> / pow2 E = of_int (\<bar>m\<bar> * 2 ^ d)"
    using pow2_pos [of E] by (simp add: ax pe)
  have r: "of_int (roundHalfEven (\<bar>x\<bar> / pow2 E)) * pow2 E = \<bar>x\<bar>"
    unfolding q roundHalfEven_int using pow2_pos [of E] by (simp add: ax pe)
  have "numberValue x = Num x"
    unfolding numberValue_def Let_def E_def [symmetric] r
    using x0 fin by (simp add: x_def [symmetric])
  then show ?thesis by (simp add: x_def)
qed

text \<open>Whole amounts are subtracted exactly.\<close>

lemma subtract_whole:
  assumes "\<bar>a - b\<bar> < 2 ^ 53"
  shows "subtract (Num (of_int a)) (Num (of_int b)) = Num (of_int (a - b))"
proof -
  have "(2::real) ^ 53 < 2 ^ 1024" by simp
  moreover have "(of_int \<bar>a - b\<bar> :: real) < of_int (2 ^ 53)"
    using assms by (simp only: of_int_less_iff)
  ultimately have "\<bar>of_int (a - b) * pow2 0\<bar> < pow2 1024"
    using pow2_nat [of 1024] pow2_nat [of 0] by simp
  from numberValue_exact [OF assms _ this]
  show ?thesis using pow2_nat [of 0] by (simp add: subtract_def)
qed

section \<open>Evaluating numbers\<close>

text \<open>
  The functions on numbers are evaluated by unfolding; the recursive \<^const>\<open>bitlen\<close> and
  \<^const>\<open>isqrt\<close> unfold on numerals only.
\<close>

lemmas num_eval = numberValue_def ilog2_def bitlen.simps pow2_def roundHalfEven_def Let_def
  subtract_def Math_pow2_def isLessEq_def isqrt.simps planarDistance_def

lemma numberValue_0: "numberValue 0 = Num 0"
  by (simp add: numberValue_def)

text \<open>Amounts in whole units are doubles.\<close>

lemma wallet_values:
  "numberValue 250 = Num 250" "numberValue 150 = Num 150" "numberValue 100 = Num 100"
  "numberValue 50 = Num 50" "numberValue 40 = Num 40" "numberValue 10 = Num 10"
  "numberValue 1 = Num 1"
  by (simp_all add: num_eval)

text \<open>
  The doubles that \<open>parseFloat\<close> reads from the decimals 0.05, 0.10, 0.20, 0.30, 100.10,
  0.12, 0.02 and 0.02702702702702703 of the scenarios.
\<close>

lemma decimal_values:
  "numberValue (1 / 20) = Num (3602879701896397 / 72057594037927936)"
  "numberValue (1 / 10) = Num (3602879701896397 / 36028797018963968)"
  "numberValue (1 / 5) = Num (3602879701896397 / 18014398509481984)"
  "numberValue (3 / 10) = Num (5404319552844595 / 18014398509481984)"
  "numberValue (1001 / 10) = Num (3521955646092083 / 35184372088832)"
  "numberValue (3 / 25) = Num (1080863910568919 / 9007199254740992)"
  "numberValue (1 / 50) = Num (5764607523034235 / 288230376151711744)"
  "numberValue (2702702702702703 / 100000000000000000)
     = Num (486875635391405 / 18014398509481984)"
  by (simp_all add: num_eval)

text \<open>The distances of the scenarios, operation by operation.\<close>

lemma distance_values:
  "planarDistance (Num 0) (Num 0) (Num 0) (Num 0) = Num 0"
  "planarDistance (Num 0) (Num 0) (Num (3602879701896397 / 72057594037927936)) (Num 0)
     = Num (1562186120744141 / 281474976710656)"
  "planarDistance (Num 0) (Num 0) (Num 1) (Num 0) = Num 111"
  "planarDistance (Num (486875635391405 / 18014398509481984)) (Num 0) (Num 0) (Num 0) = Num 3"
  by (simp_all add: num_eval)

section \<open>The nearby-user query\<close>

text \<open>
  C10. \<open>getUsersNearby\<close> never returns a user whose latitude or longitude is null, nor a
  user whose id is in \<open>excludeIds\<close>, whatever the radius: the filter rejects such a user
  before it computes any distance.
\<close>

theorem getUsersNearby_excludes:
  "u \<in> set (getUsersNearby s lat lng r excludeIds) \<Longrightarrow>
     latitude u \<noteq> None \<and> longitude u \<noteq> None \<and> uid u \<notin> set excludeIds"
  by (auto simp: getUsersNearby_def nearbyFilter_def split: if_splits)

theorem getUsersNearby_excludes_witness:
  "mkUser 3 (Some 0) (Some 0) 0
     \<in> set (getUsersNearby (storeOf [mkUser 1 None (Some 0) 0, mkUser 2 (Some 0) (Some 0) 0,
                                      mkUser 3 (Some 0) (Some 0) 0]) (Num 0) (Num 0) (Num 10) [2]) \<and>
   latitude (mkUser 3 (Some 0) (Some 0) 0) \<noteq> None \<and>
   longitude (mkUser 3 (Some 0) (Some 0) 0) \<noteq> None \<and>
   uid (mkUser 3 (Some 0) (Some 0) 0) \<notin> set [2]"
proof -
  have h: "mkUser 3 (Some 0) (Some 0) 0
     \<in> set (getUsersNearby (storeOf [mkUser 1 None (Some 0) 0, mkUser 2 (Some 0) (Some 0) 0,
                                      mkUser 3 (Some 0) (Some 0) 0]) (Num 0) (Num 0) (Num 10) [2])"
    by (simp add: getUsersNearby_def nearbyFilter_def storeOf_def emptyStore_def mkUser_def
          numberValue_0 distance_values isLessEq_def)
  from getUsersNearby_excludes [OF h] h show ?thesis by simp
qed

text \<open>
  C8 as stated fails at the boundary. The claim reads the test with exact arithmetic;
  the code evaluates it on doubles. For the query at latitude \<open>0.02702702702702703\<close> and
  longitude 0 with radius 3 and the user at \<open>(0, 0)\<close>, the latitude is a double slightly
  above \<open>1/37\<close>, so that \<open>sqrt ((lat - 0)\<^sup>2 + (0 - 0)\<^sup>2) * 111\<close> exceeds 3; the code rounds
  the product to 3 and returns the user.
\<close>

theorem planar_boundary_counterexample:
  "numberValue (2702702702702703 / 100000000000000000)
     = Num (486875635391405 / 18014398509481984) \<and>
   mkUser 1 (Some 0) (Some 0) 0
     \<in> set (getUsersNearby (storeOf [mkUser 1 (Some 0) (Some 0) 0])
              (Num (486875635391405 / 18014398509481984)) (Num 0) (Num 3) []) \<and>
   \<not> sqrt ((486875635391405 / 18014398509481984 - 0)\<^sup>2 + (0 - 0)\<^sup>2) * 111 \<le> (3::real)"
proof -
  have "sqrt ((486875635391405 / 18014398509481984 - 0)\<^sup>2 + (0 - 0)\<^sup>2)
          = \<bar>486875635391405 / 18014398509481984 - 0 :: real\<bar>"
    by (simp only: diff_self zero_power2 add_0_right real_sqrt_abs)
  then have "\<not> sqrt ((486875635391405 / 18014398509481984 - 0)\<^sup>2 + (0 - 0)\<^sup>2) * 111 \<le> (3::real)"
    by simp
  moreover have "mkUser 1 (Some 0) (Some 0) 0
     \<in> set (getUsersNearby (storeOf [mkUser 1 (Some 0) (Some 0) 0])
              (Num (486875635391405 / 18014398509481984)) (Num 0) (Num 3) [])"
    by (simp add: getUsersNearby_def nearbyFilter_def storeOf_def emptyStore_def mkUser_def
          numberValue_0 distance_values isLessEq_def)
  ultimately show ?thesis by (simp add: decimal_values)
qed

text \<open>
  C8, amended. A candidate at \<open>(userLat, userLng)\<close> that is not excluded is returned by
  the nearby-user query at \<open>(lat, lng)\<close> with radius \<open>r\<close> if and only if it is a stored user
  and the value of \<open>Math.sqrt(Math.pow(lat - userLat, 2) + Math.pow(lng - userLng, 2)) * 111\<close>,
  computed on doubles with every operation rounded to the nearest double, is \<open><= r\<close>: the
  planar approximation with 111 km to a degree, not the Haversine formula. For the query
  at \<open>(0, 0)\<close> with radius 10 the user at \<open>(0.05, 0)\<close> is returned and the user at \<open>(1, 0)\<close>
  is not.
\<close>

theorem getUsersNearby_planar:
  assumes "latitude u = Some userLat" and "longitude u = Some userLng"
    and "uid u \<notin> set excludeIds"
  shows "u \<in> set (getUsersNearby s lat lng r excludeIds) \<longleftrightarrow>
           u \<in> set (map snd (users s)) \<and>
           isLessEq
             (multiply
                (Math_sqrt (add (Math_pow2 (subtract lat userLat))
                                (Math_pow2 (subtract lng userLng))))
                (Num 111)) r"
  using assms by (auto simp: getUsersNearby_def nearbyFilter_def planarDistance_def)

theorem getUsersNearby_planar_witness:
  "mkUser 1 (Some (5 / 100)) (Some 0) 0
     \<in> set (getUsersNearby (storeOf [mkUser 1 (Some (5 / 100)) (Some 0) 0,
                                      mkUser 2 (Some 1) (Some 0) 0]) (Num 0) (Num 0) (Num 10) []) \<and>
   mkUser 2 (Some 1) (Some 0) 0
     \<notin> set (getUsersNearby (storeOf [mkUser 1 (Some (5 / 100)) (Some 0) 0,
                                      mkUser 2 (Some 1) (Some 0) 0]) (Num 0) (Num 0) (Num 10) [])"
proof -
  have near: "isLessEq
      (multiply
         (Math_sqrt (add (Math_pow2 (subtract (Num 0) (numberValue (5 / 100))))
                         (Math_pow2 (subtract (Num 0) (numberValue 0)))))
         (Num 111)) (Num 10)"
    using distance_values(2)
    by (simp add: planarDistance_def decimal_values numberValue_0) (simp add: isLessEq_def)
  have far: "\<not> isLessEq
      (multiply
         (Math_sqrt (add (Math_pow2 (subtract (Num 0) (numberValue 1)))
                         (Math_pow2 (subtract (Num 0) (numberValue 0)))))
         (Num 111)) (Num 10)"
    using distance_values(3)
    by (simp add: planarDistance_def wallet_values numberValue_0) (simp add: isLessEq_def)
  have a: "mkUser 1 (Some (5 / 100)) (Some 0) 0
     \<in> set (getUsersNearby (storeOf [mkUser 1 (Some (5 / 100)) (Some 0) 0,
                                      mkUser 2 (Some 1) (Some 0) 0]) (Num 0) (Num 0) (Num 10) [])"
    using near
    by (subst getUsersNearby_planar
          [where userLat = "numberValue (5 / 100)" and userLng = "numberValue 0"])
       (simp_all add: mkUser_def storeOf_def emptyStore_def)
  have b: "mkUser 2 (Some 1) (Some 0) 0
     \<notin> set (getUsersNearby (storeOf [mkUser 1 (Some (5 / 100)) (Some 0) 0,
                                      mkUser 2 (Some 1) (Some 0) 0]) (Num 0) (Num 0) (Num 10) [])"
    using far
    by (subst getUsersNearby_planar
          [where userLat = "numberValue 1" and userLng = "numberValue 0"])
       (simp_all add: mkUser_def storeOf_def emptyStore_def)
  from a b show ?thesis by simp
qed

section \<open>The blind-date escrow\<close>

lemmas escrow_eval = walletStore_def storeOf_def mkUser_def emptyStore_def blindDateRequest_def
  createBlindDate_def updateUser_def getUser_def getBlindDate_def
  joinBlindDate_def matchBlindDate_def updateBlindDate_def Let_def subtract_def
  wallet_values numberValue_0

lemma pendingStore_eq:
  "pendingStore = walletStore\<lparr> users := [(1, mkUser 1 None None 150), (2, mkUser 2 None None 100),
        (3, mkUser 3 None None 100), (4, mkUser 4 None None 40)],
      blindDates := [(1, \<lparr> user1Id = 1, radius = 5, centerLat = Num 0, centerLng = Num 0,
          amount = Num 100,
          blindDate_id = 1, user2Id = None, status = Pending, scheduledFor = None,
          blindDate_createdAt = 1000 \<rparr>)],
      currentBlindDateId := 2 \<rparr>"
  by (simp add: pendingStore_def escrow_eval)

lemma matchedStore_eq:
  "matchedStore = walletStore\<lparr> users := [(1, mkUser 1 None None 150), (2, mkUser 2 None None 0),
        (3, mkUser 3 None None 100), (4, mkUser 4 None None 40)],
      blindDates := [(1, \<lparr> user1Id = 1, radius = 5, centerLat = Num 0, centerLng = Num 0,
          amount = Num 100,
          blindDate_id = 1, user2Id = Some 2, status = Matched, scheduledFor = Some 86402000,
          blindDate_createdAt = 1000 \<rparr>)],
      currentBlindDateId := 2 \<rparr>"
  by (simp add: matchedStore_def pendingStore_eq) (simp add: escrow_eval)

text \<open>
  What the two handlers do. A request that is answered with a status leaves the store as
  it was. The create handler, given a body that the schema accepts and a stored user
  whose balance is not below the amount, stores the pending blind date and writes the
  difference of balance and amount, as doubles, to the user; the join handler, given a
  stored user and a stored blind date whose amount the balance is not below, marks the
  blind date as matched with the joiner, scheduled 24 hours later, and writes the
  difference to the joiner.
\<close>

lemma postBlindDate_rejected_unchanged:
  "postBlindDate schema s now body = (Status c m, s') \<Longrightarrow> s' = s"
  by (auto simp: postBlindDate_def Let_def split: option.splits prod.splits if_splits)

lemma postBlindDate_effect:
  assumes "schema body = Some d" and "getUser s (user1Id d) = Some u"
    and "\<not> isLess (walletBalance u) (amount d)"
  shows "postBlindDate schema s now body =
    (Json \<lparr> user1Id = user1Id d, radius = radius d, centerLat = centerLat d,
             centerLng = centerLng d, amount = amount d, blindDate_id = currentBlindDateId s,
             user2Id = None, status = Pending, scheduledFor = None, blindDate_createdAt = now \<rparr>,
     s\<lparr> currentBlindDateId := currentBlindDateId s + 1,
        blindDates := AList.update (currentBlindDateId s)
          \<lparr> user1Id = user1Id d, radius = radius d, centerLat = centerLat d,
            centerLng = centerLng d, amount = amount d, blindDate_id = currentBlindDateId s,
            user2Id = None, status = Pending, scheduledFor = None, blindDate_createdAt = now \<rparr>
          (blindDates s),
        users := AList.update (user1Id d)
          (u\<lparr>walletBalance := subtract (walletBalance u) (amount d)\<rparr>) (users s) \<rparr>)"
  using assms
  by (simp add: postBlindDate_def createBlindDate_def updateUser_def getUser_def Let_def)

lemma joinBlindDate_effect:
  assumes "getUser s joiner = Some u" and "getBlindDate s blindDateId = Some bd"
    and "\<not> isLess (walletBalance u) (amount bd)"
  shows "joinBlindDate s now blindDateId joiner =
    (Json (Some (bd\<lparr> user2Id := Some joiner, status := Matched,
                      scheduledFor := Some (now + 86400000) \<rparr>)),
     s\<lparr> blindDates := AList.update blindDateId
          (bd\<lparr> user2Id := Some joiner, status := Matched,
               scheduledFor := Some (now + 86400000) \<rparr>) (blindDates s),
        users := AList.update joiner
          (u\<lparr>walletBalance := subtract (walletBalance u) (amount bd)\<rparr>) (users s) \<rparr>)"
  using assms
  by (simp add: joinBlindDate_def matchBlindDate_def updateBlindDate_def updateUser_def
        getUser_def getBlindDate_def Let_def)

lemma joinBlindDate_insufficient:
  assumes "getUser s joiner = Some u" and "getBlindDate s blindDateId = Some bd"
    and "isLess (walletBalance u) (amount bd)"
  shows "joinBlindDate s now blindDateId joiner = (Status 400 ''Insufficient wallet balance'', s)"
  using assms by (simp add: joinBlindDate_def)

text \<open>
  What the join handler checks: it succeeds exactly when the user and the blind date
  exist and the balance is not below the amount, and a request it rejects leaves the
  store as it was.
\<close>

lemma joinBlindDate_succeeds_iff:
  "(\<exists>r s'. joinBlindDate s now blindDateId joiner = (Json r, s')) \<longleftrightarrow>
     (\<exists>u bd. getUser s joiner = Some u \<and> getBlindDate s blindDateId = Some bd \<and>
        \<not> isLess (walletBalance u) (amount bd))"
  by (auto simp: joinBlindDate_def Let_def split: option.splits prod.splits if_splits)

lemma joinBlindDate_rejected_unchanged:
  "joinBlindDate s now blindDateId joiner = (Status c m, s') \<Longrightarrow> s' = s"
  by (auto simp: joinBlindDate_def Let_def split: option.splits prod.splits if_splits)

text \<open>The store of the scenario with small change.\<close>

lemma changeStore_eq:
  "changeStore = emptyStore\<lparr>
      users := [(1, mkUser 1 None None 0), (2, mkUser 2 None None (30 / 100)),
                (3, mkUser 3 None None (10010 / 100)), (4, mkUser 4 None None (12 / 100))],
      blindDates :=
        [(1, \<lparr> user1Id = 1, radius = 5, centerLat = Num 0, centerLng = Num 0,
               amount = Num (3602879701896397 / 36028797018963968),
               blindDate_id = 1, user2Id = None, status = Pending, scheduledFor = None,
               blindDate_createdAt = 1000 \<rparr>),
         (2, \<lparr> user1Id = 1, radius = 5, centerLat = Num 0, centerLng = Num 0,
               amount = Num (3602879701896397 / 18014398509481984),
               blindDate_id = 2, user2Id = None, status = Pending, scheduledFor = None,
               blindDate_createdAt = 1000 \<rparr>),
         (3, \<lparr> user1Id = 1, radius = 5, centerLat = Num 0, centerLng = Num 0,
               amount = Num 100,
               blindDate_id = 3, user2Id = None, status = Pending, scheduledFor = None,
               blindDate_createdAt = 1000 \<rparr>),
         (4, \<lparr> user1Id = 1, radius = 5, centerLat = Num 0, centerLng = Num 0,
               amount = Num (5764607523034235 / 288230376151711744),
               blindDate_id = 4, user2Id = None, status = Pending, scheduledFor = None,
               blindDate_createdAt = 1000 \<rparr>)],
      currentBlindDateId := 5 \<rparr>"
  by (simp add: changeStore_def storeOf_def emptyStore_def blindDateRequest_def mkUser_def
        createBlindDate_def Let_def decimal_values wallet_values)

lemma change_differences:
  "subtract (Num (5404319552844595 / 18014398509481984))
            (Num (3602879701896397 / 36028797018963968))
     = Num (7205759403792793 / 36028797018963968)"
  "subtract (Num (3521955646092083 / 35184372088832)) (Num 100)
     = Num (3518437208883 / 35184372088832)"
  "subtract (Num (1080863910568919 / 9007199254740992))
            (Num (5764607523034235 / 288230376151711744))
     = Num (7205759403792793 / 72057594037927936)"
  by (simp_all add: num_eval)

text \<open>
  C1. A create or join request of a user whose balance is at least the amount is
  specified to succeed and to leave the balance lower by exactly the amount. The handlers
  subtract the doubles that \<open>parseFloat\<close> reads from the two decimal strings and store the
  rounded difference. User 2, holding 0.30, joins blind date 1 for 0.10: the request
  succeeds, the blind date is matched with user 2, and the stored balance is the double
  \<open>0.19999999999999998\<close>, which is not the double of 0.20 and is below it; the join of
  blind date 2 for 0.20 that follows is refused with status 400, although 0.30 - 0.10
  covers it. Likewise user 3, holding 100.10, is left with \<open>0.09999999999999432\<close> by the
  join of blind date 3 for 100.00. In these two cases the difference of the two doubles
  is itself a double and the error is that of reading the decimals. User 4, holding 0.12,
  joins blind date 4 for 0.02: here the subtraction rounds as well, and the stored balance
  \<open>0.09999999999999999\<close> is neither the double of 0.10 nor the exact difference of the two
  doubles read.
\<close>

theorem wallet_debit_not_exact:
  "map_option walletBalance (getUser changeStore 2) = Some (numberValue (30 / 100)) \<and>
   map_option amount (getBlindDate changeStore 1) = Some (numberValue (10 / 100)) \<and>
   map_option amount (getBlindDate changeStore 2) = Some (numberValue (20 / 100)) \<and>
   joinBlindDate changeStore 2000 1 2 =
     (Json (Some \<lparr> user1Id = 1, radius = 5, centerLat = Num 0, centerLng = Num 0,
                    amount = numberValue (10 / 100), blindDate_id = 1, user2Id = Some 2,
                    status = Matched, scheduledFor = Some 86402000,
                    blindDate_createdAt = 1000 \<rparr>),
      changeStore\<lparr>
        blindDates := AList.update 1
          \<lparr> user1Id = 1, radius = 5, centerLat = Num 0, centerLng = Num 0,
            amount = numberValue (10 / 100), blindDate_id = 1, user2Id = Some 2,
            status = Matched, scheduledFor = Some 86402000, blindDate_createdAt = 1000 \<rparr>
          (blindDates changeStore),
        users := AList.update 2
          ((mkUser 2 None None (30 / 100))
             \<lparr>walletBalance := Num (7205759403792793 / 36028797018963968)\<rparr>)
          (users changeStore) \<rparr>) \<and>
   Num (7205759403792793 / 36028797018963968) \<noteq> numberValue (30 / 100 - 10 / 100) \<and>
   isLess (Num (7205759403792793 / 36028797018963968)) (numberValue (20 / 100)) \<and>
   joinBlindDate (snd (joinBlindDate changeStore 2000 1 2)) 3000 2 2 =
     (Status 400 ''Insufficient wallet balance'', snd (joinBlindDate changeStore 2000 1 2)) \<and>
   map_option walletBalance (getUser changeStore 3) = Some (numberValue (10010 / 100)) \<and>
   map_option amount (getBlindDate changeStore 3) = Some (numberValue (10000 / 100)) \<and>
   map_option walletBalance (getUser (snd (joinBlindDate changeStore 2000 3 3)) 3)
     = Some (Num (3518437208883 / 35184372088832)) \<and>
   Num (3518437208883 / 35184372088832) \<noteq> numberValue (10010 / 100 - 10000 / 100) \<and>
   map_option walletBalance (getUser changeStore 4)
     = Some (Num (1080863910568919 / 9007199254740992)) \<and>
   numberValue (12 / 100) = Num (1080863910568919 / 9007199254740992) \<and>
   map_option amount (getBlindDate changeStore 4)
     = Some (Num (5764607523034235 / 288230376151711744)) \<and>
   numberValue (2 / 100) = Num (5764607523034235 / 288230376151711744) \<and>
   map_option walletBalance (getUser (snd (joinBlindDate changeStore 2000 4 4)) 4)
     = Some (Num (7205759403792793 / 72057594037927936)) \<and>
   Num (7205759403792793 / 72057594037927936) \<noteq> numberValue (12 / 100 - 2 / 100) \<and>
   (7205759403792793 / 72057594037927936 :: real)
     \<noteq> 1080863910568919 / 9007199254740992 - 5764607523034235 / 288230376151711744"
proof -
  have u2: "getUser changeStore 2 = Some (mkUser 2 None None (30 / 100))"
    and u3: "getUser changeStore 3 = Some (mkUser 3 None None (10010 / 100))"
    and u4: "getUser changeStore 4 = Some (mkUser 4 None None (12 / 100))"
    by (simp_all add: changeStore_eq getUser_def)
  have b1: "getBlindDate changeStore 1 = Some \<lparr> user1Id = 1, radius = 5, centerLat = Num 0,
               centerLng = Num 0, amount = Num (3602879701896397 / 36028797018963968),
               blindDate_id = 1, user2Id = None, status = Pending, scheduledFor = None,
               blindDate_createdAt = 1000 \<rparr>"
    and b2: "getBlindDate changeStore 2 = Some \<lparr> user1Id = 1, radius = 5, centerLat = Num 0,
               centerLng = Num 0, amount = Num (3602879701896397 / 18014398509481984),
               blindDate_id = 2, user2Id = None, status = Pending, scheduledFor = None,
               blindDate_createdAt = 1000 \<rparr>"
    and b3: "getBlindDate changeStore 3 = Some \<lparr> user1Id = 1, radius = 5, centerLat = Num 0,
               centerLng = Num 0, amount = Num 100,
               blindDate_id = 3, user2Id = None, status = Pending, scheduledFor = None,
               blindDate_createdAt = 1000 \<rparr>"
    and b4: "getBlindDate changeStore 4 = Some \<lparr> user1Id = 1, radius = 5, centerLat = Num 0,
               centerLng = Num 0, amount = Num (5764607523034235 / 288230376151711744),
               blindDate_id = 4, user2Id = None, status = Pending, scheduledFor = None,
               blindDate_createdAt = 1000 \<rparr>"
    by (simp_all add: changeStore_eq getBlindDate_def)
  have j1: "joinBlindDate changeStore 2000 1 2 =
     (Json (Some \<lparr> user1Id = 1, radius = 5, centerLat = Num 0, centerLng = Num 0,
                    amount = numberValue (10 / 100), blindDate_id = 1, user2Id = Some 2,
                    status = Matched, scheduledFor = Some 86402000,
                    blindDate_createdAt = 1000 \<rparr>),
      changeStore\<lparr>
        blindDates := AList.update 1
          \<lparr> user1Id = 1, radius = 5, centerLat = Num 0, centerLng = Num 0,
            amount = numberValue (10 / 100), blindDate_id = 1, user2Id = Some 2,
            status = Matched, scheduledFor = Some 86402000, blindDate_createdAt = 1000 \<rparr>
          (blindDates changeStore),
        users := AList.update 2
          ((mkUser 2 None None (30 / 100))
             \<lparr>walletBalance := Num (7205759403792793 / 36028797018963968)\<rparr>)
          (users changeStore) \<rparr>)"
    by (subst joinBlindDate_effect [OF u2 b1])
       (simp_all add: mkUser_def decimal_values change_differences)
  have u2': "getUser (snd (joinBlindDate changeStore 2000 1 2)) 2 =
      Some ((mkUser 2 None None (30 / 100))
             \<lparr>walletBalance := Num (7205759403792793 / 36028797018963968)\<rparr>)"
    by (simp add: j1 getUser_def update_conv')
  have b2': "getBlindDate (snd (joinBlindDate changeStore 2000 1 2)) 2 =
      Some \<lparr> user1Id = 1, radius = 5, centerLat = Num 0,
               centerLng = Num 0, amount = Num (3602879701896397 / 18014398509481984),
               blindDate_id = 2, user2Id = None, status = Pending, scheduledFor = None,
               blindDate_createdAt = 1000 \<rparr>"
    using b2 by (simp add: j1 getBlindDate_def update_conv')
  have j2: "joinBlindDate (snd (joinBlindDate changeStore 2000 1 2)) 3000 2 2 =
     (Status 400 ''Insufficient wallet balance'', snd (joinBlindDate changeStore 2000 1 2))"
    by (rule joinBlindDate_insufficient [OF u2' b2']) simp
  have j3: "map_option walletBalance (getUser (snd (joinBlindDate changeStore 2000 3 3)) 3)
     = Some (Num (3518437208883 / 35184372088832))"
    by (subst joinBlindDate_effect [OF u3 b3])
       (simp_all add: mkUser_def decimal_values change_differences getUser_def update_conv')
  have j4: "map_option walletBalance (getUser (snd (joinBlindDate changeStore 2000 4 4)) 4)
     = Some (Num (7205759403792793 / 72057594037927936))"
    by (subst joinBlindDate_effect [OF u4 b4])
       (simp_all add: mkUser_def decimal_values change_differences getUser_def update_conv')
  have ne: "Num (7205759403792793 / 36028797018963968) \<noteq> numberValue (30 / 100 - 10 / 100)"
    "isLess (Num (7205759403792793 / 36028797018963968)) (numberValue (20 / 100))"
    "Num (3518437208883 / 35184372088832) \<noteq> numberValue (10010 / 100 - 10000 / 100)"
    "Num (7205759403792793 / 72057594037927936) \<noteq> numberValue (12 / 100 - 2 / 100)"
    using decimal_values(2,3) by simp_all
  show ?thesis
    using u2 u3 u4 b1 b2 b3 b4 j1 j2 j3 j4 ne
    by (simp add: mkUser_def decimal_values wallet_values)
qed

text \<open>The create handler subtracts in the same way: 0.30 less 0.10 is stored as
  \<open>0.19999999999999998\<close>.\<close>

lemma postBlindDate_debit_not_exact:
  "map_option walletBalance
     (getUser (snd (postBlindDate Some changeStore 2000 (blindDateRequest 2 (10 / 100)))) 2)
     = Some (Num (7205759403792793 / 36028797018963968))"
proof -
  have u2: "getUser changeStore (user1Id (blindDateRequest 2 (10 / 100)))
              = Some (mkUser 2 None None (30 / 100))"
    by (simp add: changeStore_eq getUser_def blindDateRequest_def)
  show ?thesis
    by (subst postBlindDate_effect
          [where schema = Some and body = "blindDateRequest 2 (10 / 100)", OF refl u2])
       (simp_all add: mkUser_def blindDateRequest_def decimal_values change_differences
          getUser_def update_conv')
qed

text \<open>
  C2. Join is specified to succeed if and only if the blind date exists, is pending, the
  joining user is not its requester and the joiner's balance covers the amount. The
  handler tests neither the status nor the requester. In the store where blind date 1 of
  user 1 is already matched with user 2, the join of user 3 is answered with the blind
  date, now matched with user 3, and debits user 3, while user 2 has paid as well; and on
  the pending blind date 1 the join of its own requester, user 1, is accepted too.
\<close>

theorem joinBlindDate_unguarded:
  "map_option status (getBlindDate matchedStore 1) = Some Matched \<and>
   map_option user2Id (getBlindDate matchedStore 1) = Some (Some 2) \<and>
   (\<exists>bd s'. joinBlindDate matchedStore 3000 1 3 = (Json (Some bd), s') \<and>
      status bd = Matched \<and> user2Id bd = Some 3 \<and>
      map_option walletBalance (getUser s' 3) = Some (Num 0) \<and>
      map_option walletBalance (getUser s' 2) = Some (Num 0)) \<and>
   map_option user1Id (getBlindDate pendingStore 1) = Some 1 \<and>
   (\<exists>bd s'. joinBlindDate pendingStore 3000 1 1 = (Json (Some bd), s') \<and>
      user1Id bd = 1 \<and> user2Id bd = Some 1 \<and> status bd = Matched \<and>
      map_option walletBalance (getUser s' 1) = Some (Num 50))"
  by (simp add: matchedStore_eq pendingStore_eq) (simp add: escrow_eval)

text \<open>
  The listing of available blind dates, for comparison, drops a blind date that is not
  pending or that is the requester's own.
\<close>

lemma availableFilter_guard:
  "availableFilter u lat lng r bd \<Longrightarrow> status bd = Pending \<and> user1Id bd \<noteq> uid u"
  by (auto simp: availableFilter_def split: if_splits)

section \<open>Swipes and matches\<close>

lemma update_fresh: "k \<notin> fst ` set al \<Longrightarrow> AList.update k v al = al @ [(k, v)]"
  by (induction al) auto

lemma find_filter: "find P xs = (case filter P xs of [] \<Rightarrow> None | x # ys \<Rightarrow> Some x)"
  by (induction xs) auto

lemma getSwipe_swipesOf:
  "getSwipe s a b = (case swipesOf s a b of [] \<Rightarrow> None | sw # rest \<Rightarrow> Some sw)"
  by (simp add: getSwipe_def swipesOf_def find_filter)

lemma likes_swipesOf: "likes s a b \<longleftrightarrow> (\<exists>sw \<in> set (swipesOf s a b). action sw = Like)"
  by (auto simp: likes_def swipesOf_def list_ex_iff)

text \<open>With at most one swipe for the pair, the swipe that \<open>getSwipe\<close> finds decides \<open>likes\<close>.\<close>

lemma likes_getSwipe:
  assumes "length (swipesOf s a b) \<le> 1"
  shows "likes s a b \<longleftrightarrow> (case getSwipe s a b of None \<Rightarrow> False | Some r \<Rightarrow> action r = Like)"
proof (cases "swipesOf s a b")
  case Nil
  then show ?thesis by (simp add: likes_swipesOf getSwipe_swipesOf)
next
  case (Cons sw rest)
  with assms have "rest = []" by simp
  with Cons show ?thesis by (simp add: likes_swipesOf getSwipe_swipesOf)
qed

subsection \<open>createSwipe and createMatch on a store whose counters are fresh\<close>

lemma createSwipe_swipes:
  assumes "\<forall>k \<in> fst ` set (swipes s). k < currentSwipeId s"
  shows "swipes (snd (createSwipe s now d))
           = swipes s @ [(currentSwipeId s, fst (createSwipe s now d))]"
proof -
  from assms have "currentSwipeId s \<notin> fst ` set (swipes s)" by fastforce
  then show ?thesis by (simp add: createSwipe_def Let_def update_fresh)
qed

lemma createSwipe_fields:
  "swiperId (fst (createSwipe s now d)) = swiperId d"
  "swipedId (fst (createSwipe s now d)) = swipedId d"
  "action (fst (createSwipe s now d)) = action d"
  "matches (snd (createSwipe s now d)) = matches s"
  "currentMatchId (snd (createSwipe s now d)) = currentMatchId s"
  "currentSwipeId (snd (createSwipe s now d)) = currentSwipeId s + 1"
  by (simp_all add: createSwipe_def Let_def)

lemma createMatch_matches:
  assumes "\<forall>k \<in> fst ` set (matches s). k < currentMatchId s"
  shows "matches (snd (createMatch s now d))
           = matches s @ [(currentMatchId s, fst (createMatch s now d))]"
proof -
  from assms have "currentMatchId s \<notin> fst ` set (matches s)" by fastforce
  then show ?thesis by (simp add: createMatch_def Let_def update_fresh)
qed

lemma createMatch_fields:
  "match_user1Id (fst (createMatch s now d)) = match_user1Id d"
  "match_user2Id (fst (createMatch s now d)) = match_user2Id d"
  "swipes (snd (createMatch s now d)) = swipes s"
  "currentSwipeId (snd (createMatch s now d)) = currentSwipeId s"
  "currentMatchId (snd (createMatch s now d)) = currentMatchId s + 1"
  by (simp_all add: createMatch_def Let_def)

subsection \<open>The handler, case by case\<close>

lemma postSwipe_duplicate:
  "getSwipe s (swiperId d) (swipedId d) \<noteq> None \<Longrightarrow>
     postSwipe s now d = (Status 400 ''Already swiped'', s)"
  by (auto simp: postSwipe_def)

lemma postSwipe_new:
  assumes "getSwipe s (swiperId d) (swipedId d) = None"
  shows "snd (postSwipe s now d) =
           (if reciprocalLike s now d
            then snd (createMatch (snd (createSwipe s now d)) now
                        \<lparr> match_user1Id = swiperId d, match_user2Id = swipedId d \<rparr>)
            else snd (createSwipe s now d))"
  using assms
  by (auto simp: postSwipe_def reciprocalLike_def Let_def split: prod.splits option.splits)

subsection \<open>The invariant\<close>

lemma swipeInv_postSwipe:
  assumes inv: "swipeInv s"
  shows "swipeInv (snd (postSwipe s now d))"
proof (cases "getSwipe s (swiperId d) (swipedId d)")
  case (Some existing)
  then show ?thesis using inv by (simp add: postSwipe_duplicate)
next
  case None
  define x where "x = swiperId d"
  define y where "y = swipedId d"
  define s1 where "s1 = snd (createSwipe s now d)"
  define sw where "sw = fst (createSwipe s now d)"
  from inv have keysS: "\<forall>k \<in> fst ` set (swipes s). k < currentSwipeId s"
    and keysM: "\<forall>k \<in> fst ` set (matches s). k < currentMatchId s"
    and uniq: "\<And>a b. length (swipesOf s a b) \<le> 1"
    and count: "\<And>a b. length (matchesBetween s a b) = (if likes s a b \<and> likes s b a then 1 else 0)"
    by (simp_all add: swipeInv_def)
  have swipes1: "swipes s1 = swipes s @ [(currentSwipeId s, sw)]"
    unfolding s1_def sw_def by (rule createSwipe_swipes [OF keysS])
  have sw: "swiperId sw = x" "swipedId sw = y" "action sw = action d"
    by (simp_all add: sw_def x_def y_def createSwipe_fields)
  have s1: "matches s1 = matches s" "currentMatchId s1 = currentMatchId s"
    "currentSwipeId s1 = currentSwipeId s + 1"
    by (simp_all add: s1_def createSwipe_fields)
  have none: "swipesOf s x y = []"
    using None by (simp add: getSwipe_swipesOf x_def y_def split: list.splits)
  have of1: "swipesOf s1 a b = swipesOf s a b @ (if a = x \<and> b = y then [sw] else [])" for a b
    by (simp add: swipesOf_def swipes1 sw)
  have uniq1: "length (swipesOf s1 a b) \<le> 1" for a b
    using uniq [of a b] none by (simp add: of1)
  have likes1: "likes s1 a b \<longleftrightarrow> likes s a b \<or> (a = x \<and> b = y \<and> action d = Like)" for a b
    by (auto simp: likes_swipesOf of1 sw)
  have nolike: "\<not> likes s x y"
    by (simp add: likes_swipesOf none)
  have between1: "matchesBetween s1 a b = matchesBetween s a b" for a b
    by (simp add: matchesBetween_def s1)
  have recip: "reciprocalLike s now d \<longleftrightarrow> action d = Like \<and> likes s1 y x"
    unfolding reciprocalLike_def using likes_getSwipe [OF uniq1, of y x]
    by (simp add: s1_def x_def y_def)
  have keys1: "\<forall>k \<in> fst ` set (swipes s1). k < currentSwipeId s1"
    using keysS by (auto simp: swipes1 s1)
  show ?thesis
  proof (cases "reciprocalLike s now d")
    case False
    then have res: "snd (postSwipe s now d) = s1"
      by (simp add: postSwipe_new [OF None] s1_def)
    have "length (matchesBetween s1 a b) = (if likes s1 a b \<and> likes s1 b a then 1 else 0)" for a b
      using count [of a b] False nolike by (auto simp: between1 likes1 recip)
    with keys1 keysM uniq1 show ?thesis
      by (simp add: res swipeInv_def s1)
  next
    case True
    define s2 where "s2 = snd (createMatch s1 now \<lparr> match_user1Id = x, match_user2Id = y \<rparr>)"
    define m where "m = fst (createMatch s1 now \<lparr> match_user1Id = x, match_user2Id = y \<rparr>)"
    from True have res: "snd (postSwipe s now d) = s2"
      by (simp add: postSwipe_new [OF None] s1_def s2_def x_def y_def)
    have keysM1: "\<forall>k \<in> fst ` set (matches s1). k < currentMatchId s1"
      using keysM by (simp add: s1)
    have matches2: "matches s2 = matches s1 @ [(currentMatchId s1, m)]"
      unfolding s2_def m_def by (rule createMatch_matches [OF keysM1])
    have m: "match_user1Id m = x" "match_user2Id m = y"
      by (simp_all add: m_def createMatch_fields)
    have s2: "swipes s2 = swipes s1" "currentSwipeId s2 = currentSwipeId s1"
      "currentMatchId s2 = currentMatchId s1 + 1"
      by (simp_all add: s2_def createMatch_fields)
    have of2: "swipesOf s2 a b = swipesOf s1 a b" for a b
      by (simp add: swipesOf_def s2)
    have likes2: "likes s2 a b \<longleftrightarrow> likes s1 a b" for a b
      by (simp add: likes_def s2)
    have between2: "matchesBetween s2 a b =
        matchesBetween s a b @ (if (a = x \<and> b = y) \<or> (a = y \<and> b = x) then [m] else [])" for a b
      by (auto simp: matchesBetween_def matches2 s1 m)
    have "length (matchesBetween s2 a b) = (if likes s2 a b \<and> likes s2 b a then 1 else 0)" for a b
      using count [of a b] True nolike by (auto simp: between2 likes2 likes1 recip)
    moreover have "\<forall>k \<in> fst ` set (matches s2). k < currentMatchId s2"
      using keysM1 by (auto simp: matches2 s2)
    ultimately show ?thesis
      using keys1 uniq1 by (simp add: res swipeInv_def s2 of2)
  qed
qed

lemma swipeInv_emptyStore: "swipeInv emptyStore"
  by (simp add: swipeInv_def emptyStore_def swipesOf_def matchesBetween_def likes_def)

lemma swipeInv_runSwipes: "swipeInv s \<Longrightarrow> swipeInv (runSwipes s reqs)"
  by (induction reqs arbitrary: s) (auto simp: swipeInv_postSwipe)

text \<open>
  An accepted like is recorded, and a recorded like stays: \<open>likes s a b\<close> holds from the
  request on which \<open>a\<close> swiped like on \<open>b\<close>.
\<close>

lemma likes_after_like:
  assumes "swipeInv s" and "getSwipe s a b = None"
  shows "likes (snd (postSwipe s now (swipeRequest a b Like))) a b"
proof -
  let ?d = "swipeRequest a b Like"
  from assms(1) have keys: "\<forall>k \<in> fst ` set (swipes s). k < currentSwipeId s"
    by (simp add: swipeInv_def)
  have d: "swiperId ?d = a" "swipedId ?d = b" "action ?d = Like"
    by (simp_all add: swipeRequest_def)
  have "likes (snd (createSwipe s now ?d)) a b"
    by (simp add: likes_def createSwipe_swipes [OF keys] createSwipe_fields d)
  moreover have "likes (snd (createMatch s1 t m)) a b = likes s1 a b" for s1 t m
    by (simp add: likes_def createMatch_fields)
  ultimately show ?thesis
    using assms(2) by (simp add: postSwipe_new d)
qed

lemma likes_kept:
  assumes "swipeInv s" and "likes s a b"
  shows "likes (snd (postSwipe s now d)) a b"
proof (cases "getSwipe s (swiperId d) (swipedId d)")
  case (Some existing)
  then show ?thesis using assms(2) by (simp add: postSwipe_duplicate)
next
  case None
  from assms(1) have keys: "\<forall>k \<in> fst ` set (swipes s). k < currentSwipeId s"
    by (simp add: swipeInv_def)
  have "likes (snd (createSwipe s now d)) a b"
    using assms(2) by (simp add: likes_def createSwipe_swipes [OF keys])
  moreover have "likes (snd (createMatch s1 t m)) a b = likes s1 a b" for s1 t m
    by (simp add: likes_def createMatch_fields)
  ultimately show ?thesis
    by (simp add: postSwipe_new [OF None])
qed

lemmas swipe_eval = runSwipes.simps postSwipe_def createSwipe_def createMatch_def getSwipe_def
  emptyStore_def swipeRequest_def likes_def matchesBetween_def Let_def

lemma likeStore_eq:
  "likeStore = emptyStore\<lparr> swipes := [(1, \<lparr> swiperId = 1, swipedId = 2, action = Like,
       swipe_id = 1, swipe_createdAt = 1000 \<rparr>)], currentSwipeId := 2 \<rparr>"
  by (simp add: likeStore_def swipe_eval)

lemma mutualLikeStore_eq:
  "mutualLikeStore = emptyStore\<lparr>
     swipes := [(1, \<lparr> swiperId = 1, swipedId = 2, action = Like, swipe_id = 1,
                    swipe_createdAt = 1000 \<rparr>),
                (2, \<lparr> swiperId = 2, swipedId = 1, action = Like, swipe_id = 2,
                    swipe_createdAt = 2000 \<rparr>)],
     matches := [(1, \<lparr> match_user1Id = 2, match_user2Id = 1, match_id = 1, isActive = True,
                     matchedAt = 2000 \<rparr>)],
     currentSwipeId := 3, currentMatchId := 2 \<rparr>"
  by (simp add: mutualLikeStore_def swipe_eval)

text \<open>
  C3. In every store \<open>s\<close> that a sequence of swipe requests builds from the empty store:
  if the store records a like of \<open>a\<close> on \<open>b\<close> and a like of \<open>b\<close> on \<open>a\<close>, in whichever order
  they came, there is exactly one match between \<open>a\<close> and \<open>b\<close>; and if a swipe of \<open>a\<close> on
  \<open>b\<close> exists, a further swipe request of \<open>a\<close> on \<open>b\<close>, with any action, is rejected as a
  duplicate and leaves the store, its swipes and its matches, as it was.
\<close>

theorem mutual_like_one_match:
  assumes "s = runSwipes emptyStore reqs"
  shows "(likes s a b \<and> likes s b a \<longrightarrow> length (matchesBetween s a b) = 1) \<and>
         (getSwipe s a b \<noteq> None \<longrightarrow>
            postSwipe s now (swipeRequest a b act) = (Status 400 ''Already swiped'', s))"
proof -
  have "swipeInv s"
    unfolding assms by (rule swipeInv_runSwipes [OF swipeInv_emptyStore])
  then have "length (matchesBetween s a b) = (if likes s a b \<and> likes s b a then 1 else 0)"
    by (simp add: swipeInv_def)
  moreover have "getSwipe s a b \<noteq> None \<Longrightarrow>
      postSwipe s now (swipeRequest a b act) = (Status 400 ''Already swiped'', s)"
    by (rule postSwipe_duplicate) (simp add: swipeRequest_def)
  ultimately show ?thesis by simp
qed

theorem mutual_like_one_match_witness:
  "likes mutualLikeStore 1 2 \<and> likes mutualLikeStore 2 1 \<and>
   length (matchesBetween mutualLikeStore 1 2) = 1 \<and>
   getSwipe mutualLikeStore 1 2 \<noteq> None \<and>
   postSwipe mutualLikeStore 3000 (swipeRequest 1 2 Like)
     = (Status 400 ''Already swiped'', mutualLikeStore)"
proof -
  have l: "likes mutualLikeStore 1 2 \<and> likes mutualLikeStore 2 1"
    by (simp add: mutualLikeStore_eq likes_def emptyStore_def)
  have g: "getSwipe mutualLikeStore 1 2 \<noteq> None"
    by (simp add: mutualLikeStore_eq getSwipe_def emptyStore_def)
  from mutual_like_one_match [OF mutualLikeStore_def, of 1 2 3000 Like] l g
  show ?thesis by simp
qed

text \<open>
  C4 as stated fails: after user 1 has liked user 2, a super like of user 2 on user 1 is
  recorded with no match in the answer and none in the store, where a like of user 2 on
  user 1 is answered with the match.
\<close>

theorem super_like_no_match_counterexample:
  "likes likeStore 1 2 \<and>
   fst (postSwipe likeStore 2000 (swipeRequest 2 1 SuperLike))
     = Json (\<lparr> swiperId = 2, swipedId = 1, action = SuperLike, swipe_id = 2,
               swipe_createdAt = 2000 \<rparr>, None) \<and>
   matches (snd (postSwipe likeStore 2000 (swipeRequest 2 1 SuperLike))) = [] \<and>
   fst (postSwipe likeStore 2000 (swipeRequest 2 1 Like))
     = Json (\<lparr> swiperId = 2, swipedId = 1, action = Like, swipe_id = 2,
               swipe_createdAt = 2000 \<rparr>,
             Some \<lparr> match_user1Id = 2, match_user2Id = 1, match_id = 1, isActive = True,
                    matchedAt = 2000 \<rparr>)"
  by (simp add: likeStore_eq) (simp add: swipe_eval)

text \<open>
  C4, amended. The handler looks for the reverse swipe only when the incoming action is
  like. A swipe request with the action super like or pass never creates a match: the
  matches of the store stay as they are and the answer carries no match, whatever swipe the
  other user has made.
\<close>

theorem only_like_is_checked:
  "action d \<noteq> Like \<Longrightarrow>
     matches (snd (postSwipe s now d)) = matches s \<and>
     (\<forall>sw m. fst (postSwipe s now d) \<noteq> Json (sw, Some m))"
  by (auto simp: postSwipe_def createSwipe_def Let_def split: option.splits)

theorem only_like_is_checked_witness:
  "action (swipeRequest 2 1 SuperLike) \<noteq> Like \<and>
   matches (snd (postSwipe likeStore 2000 (swipeRequest 2 1 SuperLike))) = matches likeStore \<and>
   matches likeStore = [] \<and> likes likeStore 1 2"
proof -
  have a: "action (swipeRequest 2 1 SuperLike) \<noteq> Like"
    by (simp add: swipeRequest_def)
  have b: "matches likeStore = [] \<and> likes likeStore 1 2"
    by (simp add: likeStore_eq emptyStore_def likes_def)
  from only_like_is_checked [OF a, of likeStore 2000] a b show ?thesis by simp
qed

section \<open>Sending a message\<close>

text \<open>
  C5. For every message-send request, in every state of the two regular expressions: if
  \<open>containsPhoneNumber\<close> detects a violation in the content, the answer is status 403,
  the messages are unchanged, a violation of the sender with the fine 100.00 is stored, and
  the sender, if stored, is suspended until 24 hours after the current time; if it detects
  none, the message is stored and neither the violations nor the users change.
\<close>

theorem postMessage_violation:
  "(fst (containsPhoneNumber rs (content d)) \<longrightarrow>
      (\<exists>msg s' rs'. postMessage s rs now d = (Status 403 msg, s', rs') \<and>
         messages s' = messages s \<and>
         violations s' = AList.update (currentViolationId s) (phoneViolation s now d) (violations s) \<and>
         fineAmount (phoneViolation s now d) = 100 \<and>
         userId (phoneViolation s now d) = senderId d \<and>
         (\<forall>u. getUser s (senderId d) = Some u \<longrightarrow>
            getUser s' (senderId d) = Some (u\<lparr>suspendedUntil := Some (now + 24 * 60 * 60 * 1000)\<rparr>)))) \<and>
   (\<not> fst (containsPhoneNumber rs (content d)) \<longrightarrow>
      (\<exists>m s' rs'. postMessage s rs now d = (Json m, s', rs') \<and>
         messages s' = AList.update (currentMessageId s) m (messages s) \<and>
         content m = content d \<and> senderId m = senderId d \<and>
         violations s' = violations s \<and> users s' = users s))"
proof (cases "containsPhoneNumber rs (content d)")
  case (Pair hit rs1)
  show ?thesis
  proof (cases hit)
    case True
    with Pair show ?thesis
      by (simp add: postMessage_def createViolation_def updateUser_def getUser_def
            phoneViolation_def Let_def update_conv' split: option.split)
  next
    case False
    with Pair show ?thesis
      by (simp add: postMessage_def createMessage_def Let_def)
  qed
qed

lemma contains_number:
  "containsPhoneNumber initialRegexState ''555-123-4567''
     = (True, \<lparr> phoneNumberRegex_lastIndex = 12, phoneWordRegex_lastIndex = 0 \<rparr>)"
proof -
  have "rx_test_global phoneNumberRegex 0 ''555-123-4567'' = (True, 12)"
    by (simp add: phoneNumberRegex_def char_eval rx_eval)
  then show ?thesis
    by (simp add: containsPhoneNumber_def initialRegexState_def)
qed

lemma contains_nothing: "containsPhoneNumber initialRegexState ''hi'' = (False, initialRegexState)"
proof -
  have "rx_test_global phoneNumberRegex 0 ''hi'' = (False, 0)"
    by (simp add: phoneNumberRegex_def char_eval rx_eval)
  moreover have "rx_test_global phoneWordRegex 0 ''hi'' = (False, 0)"
    by (simp add: phoneWordRegex_def char_eval rx_eval)
  ultimately show ?thesis
    by (simp add: containsPhoneNumber_def initialRegexState_def)
qed

theorem postMessage_violation_witness:
  "fst (containsPhoneNumber initialRegexState (content (messageRequest 1 ''555-123-4567''))) \<and>
   getUser (storeOf [mkUser 1 None None 0]) 1 = Some (mkUser 1 None None 0) \<and>
   (\<exists>msg s' rs'. postMessage (storeOf [mkUser 1 None None 0]) initialRegexState 5000
        (messageRequest 1 ''555-123-4567'') = (Status 403 msg, s', rs') \<and>
      messages s' = [] \<and>
      map (fineAmount \<circ> snd) (violations s') = [100] \<and>
      map_option suspendedUntil (getUser s' 1) = Some (Some 86405000)) \<and>
   \<not> fst (containsPhoneNumber initialRegexState (content (messageRequest 1 ''hi''))) \<and>
   (\<exists>m s' rs'. postMessage (storeOf [mkUser 1 None None 0]) initialRegexState 5000
        (messageRequest 1 ''hi'') = (Json m, s', rs') \<and>
      map (content \<circ> snd) (messages s') = [''hi''] \<and> violations s' = [] \<and>
      map_option suspendedUntil (getUser s' 1) = Some None)"
proof -
  have hit: "fst (containsPhoneNumber initialRegexState (content (messageRequest 1 ''555-123-4567'')))"
    by (simp add: messageRequest_def contains_number)
  have miss: "\<not> fst (containsPhoneNumber initialRegexState (content (messageRequest 1 ''hi'')))"
    by (simp add: messageRequest_def contains_nothing)
  have u: "getUser (storeOf [mkUser 1 None None 0]) 1 = Some (mkUser 1 None None 0)"
    and s: "senderId (messageRequest 1 t) = 1" for t
    by (simp_all add: getUser_def storeOf_def mkUser_def emptyStore_def messageRequest_def)
  from postMessage_violation [of initialRegexState "messageRequest 1 ''555-123-4567''"
          "storeOf [mkUser 1 None None 0]" 5000]
       postMessage_violation [of initialRegexState "messageRequest 1 ''hi''"
          "storeOf [mkUser 1 None None 0]" 5000]
       hit miss u
  show ?thesis
    by (auto simp: s phoneViolation_def storeOf_def emptyStore_def mkUser_def getUser_def
          messageRequest_def)
qed

text \<open>
  The state of the regular expressions matters: the same text, sent again right after it
  was detected, is searched from the end of the first match and passes.
\<close>

lemma contains_number_again:
  "containsPhoneNumber \<lparr> phoneNumberRegex_lastIndex = 12, phoneWordRegex_lastIndex = 0 \<rparr>
     ''555-123-4567'' = (False, initialRegexState)"
proof -
  have "rx_test_global phoneNumberRegex 12 ''555-123-4567'' = (False, 0)"
    by (simp add: phoneNumberRegex_def char_eval rx_eval)
  moreover have "rx_test_global phoneWordRegex 0 ''555-123-4567'' = (False, 0)"
    by (simp add: phoneWordRegex_def char_eval rx_eval)
  ultimately show ?thesis
    by (simp add: containsPhoneNumber_def initialRegexState_def)
qed

section \<open>The content moderator\<close>

subsection \<open>Texts without a phone number and without a violation\<close>

lemma noMatches_numberMatches:
  "\<forall>p \<in> set ps. matchAll p 0 0 None t = [] \<Longrightarrow> numberMatches ps t = []"
  by (simp add: numberMatches_def)

lemma noMatches_disguised:
  "\<forall>p \<in> set phonePatterns_disguised. matchAll p 0 0 None t = [] \<Longrightarrow>
     detectDisguisedPhoneNumbers t = []"
  by (simp add: detectDisguisedPhoneNumbers_def)

lemma detectPhoneNumbers_none:
  assumes "\<forall>p \<in> set phonePatterns_standard. matchAll p 0 0 None t = []"
    and "\<forall>p \<in> set phonePatterns_international. matchAll p 0 0 None t = []"
    and "\<forall>p \<in> set phonePatterns_disguised. matchAll p 0 0 None t = []"
    and "detectSpelledPhoneNumbers t = []"
  shows "detectPhoneNumbers cfg t = []"
  using assms
  by (simp add: detectPhoneNumbers_def noMatches_numberMatches noMatches_disguised)

lemma moderateContent_clean:
  assumes "detectPhoneNumbers defaultConfig t = []"
    and "ic_violations (detectInappropriateContent t) = []"
    and "spamScore t < 6 / 10"
  shows "\<not> isViolation (moderateContent defaultConfig t)"
  using assms
  by (simp add: moderateContent_def phoneFindings_def inappropriateFindings_def
        spamFindings_def customFindings_def checkCustomBlockedWords_def defaultConfig_def
        detectSpam_def)

lemmas wordlist_eval = detectInappropriateContent_def uniq_def inappropriateContent_def
  sexual_def offensive_def harassment_def spam_def personalInfo_def

lemmas spam_eval = spamScore_def spam_def split_whitespace_def countWord_def

subsection \<open>A number in digits\<close>

text \<open>
  The text \<open>call me at 555-123-4567\<close>: the first standard pattern matches with the
  space before the number, the third without it, and the first disguised pattern matches
  the number as well; all three pass the threshold.
\<close>

lemma phone_example_standard:
  "numberMatches phonePatterns_standard ''call me at 555-123-4567'' =
      [\<lparr> match_text = '' 555-123-4567'', match_type = TypeNumber, confidence = 1,
         position_start = 10, position_end = 23 \<rparr>,
       \<lparr> match_text = ''555-123-4567'', match_type = TypeNumber, confidence = 1,
         position_start = 11, position_end = 23 \<rparr>]"
  by (simp add: numberMatches_def phonePatterns_standard_def calculatePhoneConfidence_def
        char_eval rx_eval)

lemma phone_example_international:
  "numberMatches phonePatterns_international ''call me at 555-123-4567'' = []"
  by (simp add: numberMatches_def phonePatterns_international_def char_eval rx_eval)

lemma phone_example_disguised:
  "detectDisguisedPhoneNumbers ''call me at 555-123-4567'' =
      [\<lparr> match_text = ''555-123-4567'', match_type = TypeDisguised, confidence = 9 / 10,
         position_start = 11, position_end = 23 \<rparr>]"
  by (simp add: detectDisguisedPhoneNumbers_def phonePatterns_disguised_def
        calculateDisguisedPhoneConfidence_def char_eval rx_eval)

lemma phone_example_spelled: "detectSpelledPhoneNumbers ''call me at 555-123-4567'' = []"
  by (simp add: detectSpelledPhoneNumbers_def split_whitespace_def char_eval)

lemma phone_example:
  "map (\<lambda>m. (match_text m, match_type m, confidence m))
       (detectPhoneNumbers defaultConfig ''call me at 555-123-4567'') =
     [('' 555-123-4567'', TypeNumber, 1), (''555-123-4567'', TypeNumber, 1),
      (''555-123-4567'', TypeDisguised, 9 / 10)]"
  by (simp add: detectPhoneNumbers_def phone_example_standard phone_example_international
        phone_example_disguised phone_example_spelled defaultConfig_def)

subsection \<open>Spelled-out numbers\<close>

text \<open>
  The inner loop reports a run only when it meets a word that is not a number word: a
  window of number words alone gives nothing, however long the run.
\<close>

lemma spelledScan_only_numbers:
  "\<forall>w \<in> set ws. w \<in> set numberWords \<Longrightarrow> spelledScan ws sequence n = None"
  by (induction ws arbitrary: sequence n) auto

text \<open>
  A run of 7 to 14 number words that is followed by another word is reported, with the
  confidence \<open>min 0.9 (run length / 10)\<close>, which passes the threshold of either mode.
\<close>

lemma spelledScan_run:
  assumes "\<forall>x \<in> set run. x \<in> set numberWords" and "w \<notin> set numberWords"
    and "7 \<le> n + length run"
  shows "\<exists>m. spelledScan (run @ w # rest) sequence n = Some m \<and> match_type m = TypeSpelled \<and>
           confidence m = min (9 / 10) (real (n + length run) / 10)"
  using assms
proof (induction run arbitrary: sequence n)
  case Nil
  then show ?case by simp
next
  case (Cons x run)
  from Cons.prems have "7 \<le> (n + 1) + length run" by simp
  from Cons.IH [OF _ Cons.prems(2) this, of "sequence @ x @ '' ''"] Cons.prems(1)
  show ?case by (simp add: add.commute add.left_commute)
qed

lemma spelled_run_followed_by_word:
  assumes words: "split_whitespace (toLowerCase t) = pre @ run @ w # rest"
    and run: "\<forall>x \<in> set run. x \<in> set numberWords" and w: "w \<notin> set numberWords"
    and len: "7 \<le> length run" "length run \<le> 14"
  shows "\<exists>m \<in> set (detectPhoneNumbers cfg t). match_type m = TypeSpelled \<and>
           confidence m = min (9 / 10) (real (length run) / 10)"
proof -
  let ?ws = "split_whitespace (toLowerCase t)"
  let ?i = "length pre"
  have "15 - length run = Suc (14 - length run)"
    using len by simp
  then have window: "take 15 (drop ?i ?ws) = run @ w # take (14 - length run) rest"
    by (simp add: words)
  from spelledScan_run [OF run w, of 0 "take (14 - length run) rest" "[]"] len
  obtain m where m: "spelledScan (take 15 (drop ?i ?ws)) [] 0 = Some m"
    and ty: "match_type m = TypeSpelled"
    and conf: "confidence m = min (9 / 10) (real (length run) / 10)"
    by (auto simp: window)
  have "?i < length ?ws - 6"
    using len by (simp add: words)
  then have "?i \<in> set [0 ..< length ?ws - 6]" by simp
  with m have "m \<in> set (detectSpelledPhoneNumbers t)"
    by (force simp: detectSpelledPhoneNumbers_def Let_def)
  moreover have "confidence m \<ge> 7 / 10"
    using len by (simp add: conf)
  ultimately have "m \<in> set (detectPhoneNumbers cfg t)"
    by (simp add: detectPhoneNumbers_def Let_def)
  with ty conf show ?thesis by blast
qed

lemma spelledExample_standard:
  "\<forall>p \<in> set phonePatterns_standard. matchAll p 0 0 None spelledExample = []"
  by (simp add: spelledExample_def char_eval rx_eval phonePatterns_standard_def)

lemma spelledExample_international:
  "\<forall>p \<in> set phonePatterns_international. matchAll p 0 0 None spelledExample = []"
  by (simp add: spelledExample_def char_eval rx_eval phonePatterns_international_def)

lemma spelledExample_disguised:
  "\<forall>p \<in> set phonePatterns_disguised. matchAll p 0 0 None spelledExample = []"
  by (simp add: spelledExample_def char_eval rx_eval phonePatterns_disguised_def)

lemma spelledExample_words:
  "split_whitespace (toLowerCase spelledExample) =
     [''my'', ''number'', ''is'', ''five'', ''five'', ''five'', ''one'', ''two'', ''three'',
      ''four'', ''five'', ''six'', ''seven'']"
  by (simp add: spelledExample_def split_whitespace_def char_eval)

lemma spelledExample_spelled: "detectSpelledPhoneNumbers spelledExample = []"
  by (simp add: detectSpelledPhoneNumbers_def spelledExample_words numberWords_def upt_rec)

lemma spelledExample_phone: "detectPhoneNumbers cfg spelledExample = []"
  by (rule detectPhoneNumbers_none
        [OF spelledExample_standard spelledExample_international spelledExample_disguised
            spelledExample_spelled])

lemma spelledExample_inappropriate:
  "ic_violations (detectInappropriateContent spelledExample) = []"
  by (simp add: spelledExample_def wordlist_eval char_eval)

lemma spelledExample_spam: "spamScore spelledExample = 2 / 10"
  by (simp add: spelledExample_def spam_eval char_eval rx_eval)

text \<open>
  C6. A run of at least 7 number words is specified to give a match of the type spelled
  with the confidence \<open>min 0.9 (run length / 10)\<close>, and the text
  \<open>my number is five five five one two three four five six seven\<close> to be flagged. The
  run of 10 number words of that text reaches the end of the text, so no word ends it:
  the spelled detector returns no match, no other detector does, and the verdict is no
  violation. The same text followed by one more word gives four spelled matches, of the
  runs of 10, 9, 8 and 7 words, with the specified confidences.
\<close>

theorem spelled_run_at_end_not_flagged:
  "detectSpelledPhoneNumbers spelledExample = [] \<and>
   detectPhoneNumbers defaultConfig spelledExample = [] \<and>
   \<not> isViolation (moderateContent defaultConfig spelledExample) \<and>
   map match_type (detectSpelledPhoneNumbers (spelledExample @ '' ok'')) =
     [TypeSpelled, TypeSpelled, TypeSpelled, TypeSpelled] \<and>
   map confidence (detectSpelledPhoneNumbers (spelledExample @ '' ok'')) =
     [9 / 10, 9 / 10, 8 / 10, 7 / 10]"
proof -
  have "spamScore spelledExample < 6 / 10"
    by (simp add: spelledExample_spam)
  then have "\<not> isViolation (moderateContent defaultConfig spelledExample)"
    by (rule moderateContent_clean [OF spelledExample_phone spelledExample_inappropriate])
  moreover have "split_whitespace (toLowerCase (spelledExample @ '' ok'')) =
     [''my'', ''number'', ''is'', ''five'', ''five'', ''five'', ''one'', ''two'', ''three'',
      ''four'', ''five'', ''six'', ''seven'', ''ok'']"
    by (simp add: spelledExample_def split_whitespace_def char_eval)
  then have "map match_type (detectSpelledPhoneNumbers (spelledExample @ '' ok'')) =
       [TypeSpelled, TypeSpelled, TypeSpelled, TypeSpelled] \<and>
     map confidence (detectSpelledPhoneNumbers (spelledExample @ '' ok'')) =
       [9 / 10, 9 / 10, 8 / 10, 7 / 10]"
    by (simp add: detectSpelledPhoneNumbers_def numberWords_def upt_rec)
  ultimately show ?thesis
    by (simp add: spelledExample_spelled spelledExample_phone)
qed

subsection \<open>Spam\<close>

text \<open>
  The pattern \<open>[!?]{2,}\<close> matches somewhere exactly if two neighbouring code units are
  \<open>!\<close> or \<open>?\<close>.
\<close>

lemma takeMany_length:
  "length (takeMany p None (prev, s) acc) = Suc (length (takeWhile p s) + length acc)"
  by (induction s arbitrary: prev acc) auto

lemma rmatch_Many2:
  "rmatch (Many p 2 None) (prev, s) = [] \<longleftrightarrow> length (takeWhile p s) < 2"
proof -
  let ?ends = "takeMany p None (prev, s) []"
  have len: "length ?ends = Suc (length (takeWhile p s))"
    by (simp add: takeMany_length)
  then have "?ends \<noteq> []" by auto
  with len show ?thesis
    by (auto simp: Let_def take_eq_Nil)
qed

lemma takeWhile_two:
  "length (takeWhile p (c # cs)) < 2 \<longleftrightarrow> \<not> (p c \<and> (case cs of [] \<Rightarrow> False | b # bs \<Rightarrow> p b))"
  by (cases cs) auto

lemma matchAll_punct:
  "matchAll (Many (oneOf ''!?'') 2 None) 0 idx prev s = [] \<longleftrightarrow> \<not> hasPunctRun s"
proof (induction s arbitrary: idx prev)
  case Nil
  show ?case
    using rmatch_Many2 [of "oneOf ''!?''" prev "[]"] by (simp split: list.splits)
next
  case (Cons c cs)
  have "matchAll (Many (oneOf ''!?'') 2 None) 0 idx prev (c # cs) = [] \<longleftrightarrow>
        rmatch (Many (oneOf ''!?'') 2 None) (prev, c # cs) = [] \<and>
        matchAll (Many (oneOf ''!?'') 2 None) 0 (idx + 1) (Some c) cs = []"
    by (simp split: list.splits add: Let_def del: rmatch.simps)
  also have "\<dots> \<longleftrightarrow> length (takeWhile (oneOf ''!?'') (c # cs)) < 2 \<and> \<not> hasPunctRun cs"
    by (simp only: rmatch_Many2 Cons.IH)
  also have "\<dots> \<longleftrightarrow> \<not> hasPunctRun (c # cs)"
    by (cases cs) (auto simp: takeWhile_two)
  finally show ?case .
qed

text \<open>
  As long as no word is \<open>constructor\<close> or \<open>__proto__\<close> in lower case, the object of
  the word counts holds the number of occurrences of every word.
\<close>

lemma countWord_good:
  assumes "goodCounts acc" and "toLowerCase w \<noteq> ''constructor''" and "toLowerCase w \<noteq> ''__proto__''"
  shows "goodCounts (countWord acc w)"
    and "countOf (countWord acc w) k = countOf acc k + (if k = toLowerCase w then 1 else 0)"
proof -
  from assms(1) have d: "distinct (map fst acc)"
    and c: "\<And>k v. map_of acc k = Some v \<Longrightarrow> \<exists>n>0. v = Count n"
    by (auto simp: goodCounts_def)
  show "goodCounts (countWord acc w)"
  proof (cases "map_of acc (toLowerCase w)")
    case None
    with assms(2,3) d c show ?thesis
      by (auto simp: goodCounts_def countWord_def Let_def update_conv' distinct_update)
  next
    case (Some v)
    with c obtain n where "v = Count n" by blast
    with Some assms(2,3) d c show ?thesis
      by (auto simp: goodCounts_def countWord_def Let_def update_conv' distinct_update)
  qed
  show "countOf (countWord acc w) k = countOf acc k + (if k = toLowerCase w then 1 else 0)"
  proof (cases "map_of acc (toLowerCase w)")
    case None
    with assms(2,3) show ?thesis
      by (auto simp: countOf_def countWord_def Let_def update_conv')
  next
    case (Some v)
    with c obtain n where "v = Count n" by blast
    with Some assms(2,3) show ?thesis
      by (auto simp: countOf_def countWord_def Let_def update_conv')
  qed
qed

lemma fold_countWord:
  assumes "goodCounts acc"
    and "\<forall>w \<in> set ws. toLowerCase w \<noteq> ''constructor'' \<and> toLowerCase w \<noteq> ''__proto__''"
  shows "goodCounts (fold (\<lambda>w a. countWord a w) ws acc) \<and>
         (\<forall>k. countOf (fold (\<lambda>w a. countWord a w) ws acc) k
               = countOf acc k + count_list (map toLowerCase ws) k)"
  using assms
proof (induction ws arbitrary: acc)
  case Nil
  then show ?case by simp
next
  case (Cons w ws)
  from Cons.prems have w: "toLowerCase w \<noteq> ''constructor''" "toLowerCase w \<noteq> ''__proto__''"
    and rest: "\<forall>w \<in> set ws. toLowerCase w \<noteq> ''constructor'' \<and> toLowerCase w \<noteq> ''__proto__''"
    by simp_all
  note step = countWord_good [OF Cons.prems(1) w]
  from Cons.IH [OF step(1) rest] show ?case
    by (auto simp: step(2))
qed

lemma mathMax_not_NaN: "NotNumeric \<notin> set vs \<Longrightarrow> mathMax vs \<noteq> NaN"
  by (induction vs rule: mathMax.induct) (auto split: max_value.splits)

lemma mathMax_greater:
  "NotNumeric \<notin> set vs \<Longrightarrow> exceeds (mathMax vs) m \<longleftrightarrow> (\<exists>n. Count n \<in> set vs \<and> n > m)"
proof (induction vs rule: mathMax.induct)
  case 1
  then show ?case by simp
next
  case (2 vs)
  then show ?case by simp
next
  case (3 n vs)
  then have ih: "exceeds (mathMax vs) m \<longleftrightarrow> (\<exists>k. Count k \<in> set vs \<and> k > m)"
    and nn: "mathMax vs \<noteq> NaN"
    by (simp_all add: mathMax_not_NaN)
  show ?case
  proof (cases "mathMax vs")
    case NaN
    with nn show ?thesis by simp
  next
    case NegInfinity
    with ih show ?thesis by auto
  next
    case (Finite k)
    with ih show ?thesis by auto
  qed
qed

lemma wordCounts_repeated:
  assumes "\<forall>w \<in> set ws. toLowerCase w \<noteq> ''constructor'' \<and> toLowerCase w \<noteq> ''__proto__''"
  shows "exceeds (mathMax (map snd (fold (\<lambda>w a. countWord a w) ws []))) 3 \<longleftrightarrow>
         list_ex (\<lambda>w. count_list (map toLowerCase ws) w > 3) (map toLowerCase ws)"
proof -
  let ?r = "fold (\<lambda>w a. countWord a w) ws []"
  let ?ks = "map toLowerCase ws"
  have "goodCounts []" by (simp add: goodCounts_def)
  from fold_countWord [OF this assms]
  have good: "goodCounts ?r" and cnt: "\<And>k. countOf ?r k = count_list ?ks k"
    by (simp_all add: countOf_def)
  from good have d: "distinct (map fst ?r)"
    and c: "\<And>k v. map_of ?r k = Some v \<Longrightarrow> \<exists>n>0. v = Count n"
    by (auto simp: goodCounts_def)
  have vals: "v \<in> set (map snd ?r) \<longleftrightarrow> (\<exists>k. map_of ?r k = Some v)" for v
    using d by (force simp: map_of_eq_Some_iff image_iff)
  have nn: "NotNumeric \<notin> set (map snd ?r)"
  proof
    assume "NotNumeric \<in> set (map snd ?r)"
    then obtain k where "map_of ?r k = Some NotNumeric" unfolding vals ..
    from c [OF this] show False by simp
  qed
  have "exceeds (mathMax (map snd ?r)) 3 \<longleftrightarrow> (\<exists>n. Count n \<in> set (map snd ?r) \<and> n > 3)"
    by (rule mathMax_greater [OF nn])
  also have "\<dots> \<longleftrightarrow> (\<exists>k. countOf ?r k > 3)"
  proof
    assume "\<exists>n. Count n \<in> set (map snd ?r) \<and> n > 3"
    then obtain n k where "map_of ?r k = Some (Count n)" "n > 3" unfolding vals by blast
    then have "countOf ?r k > 3" by (simp add: countOf_def)
    then show "\<exists>k. countOf ?r k > 3" ..
  next
    assume "\<exists>k. countOf ?r k > 3"
    then obtain k where k: "countOf ?r k > 3" ..
    then obtain n where "map_of ?r k = Some (Count n)" "n > 3"
      by (auto simp: countOf_def split: option.splits count_value.splits)
    then show "\<exists>n. Count n \<in> set (map snd ?r) \<and> n > 3"
      unfolding vals by blast
  qed
  also have "\<dots> \<longleftrightarrow> (\<exists>k. count_list ?ks k > 3)"
    by (simp add: cnt)
  also have "\<dots> \<longleftrightarrow> list_ex (\<lambda>w. count_list ?ks w > 3) ?ks"
  proof
    assume "\<exists>k. count_list ?ks k > 3"
    then obtain k where k: "count_list ?ks k > 3" ..
    then have "k \<in> set ?ks" by (metis count_list_0_iff not_less_zero)
    with k show "list_ex (\<lambda>w. count_list ?ks w > 3) ?ks"
      by (auto simp: list_ex_iff)
  next
    assume "list_ex (\<lambda>w. count_list ?ks w > 3) ?ks"
    then show "\<exists>k. count_list ?ks k > 3" by (auto simp: list_ex_iff)
  qed
  finally show ?thesis .
qed

lemma spam_keywords_lower: "\<forall>w \<in> set spam. toLowerCase w = w"
  by (simp add: spam_def char_eval)

text \<open>
  On a text without the words \<open>constructor\<close> and \<open>__proto__\<close> the code computes the
  specified score.
\<close>

lemma spamScore_refines_spec:
  assumes "\<forall>w \<in> set (split_whitespace t).
             toLowerCase w \<noteq> ''constructor'' \<and> toLowerCase w \<noteq> ''__proto__''"
  shows "spamScore t = spec_spamScore t"
proof -
  have kw: "filter (\<lambda>w. str_includes (toLowerCase t) (toLowerCase w)) spam
              = filter (\<lambda>w. str_includes (toLowerCase t) w) spam"
    using spam_keywords_lower by (intro filter_cong) auto
  have punct: "length (matchAll (Many (oneOf ''!?'') 2 None) 0 0 None t) > 0 \<longleftrightarrow> hasPunctRun t"
    using matchAll_punct [of 0 None t] by auto
  have rep: "exceeds (mathMax (map snd (fold (\<lambda>w acc. countWord acc w) (split_whitespace t) []))) 3
               \<longleftrightarrow> wordRepeated t"
    unfolding wordRepeated_def Let_def by (rule wordCounts_repeated [OF assms])
  show ?thesis
    unfolding spamScore_def spec_spamScore_def Let_def kw punct rep by simp
qed

text \<open>
  C7. The spam score is specified as 0.2 for each spam keyword in the lower-cased text,
  0.3 for more than half upper-case letters, 0.2 for a run of two or more \<open>!\<close> or \<open>?\<close>
  and 0.2 for a word that occurs more than 3 times, with the verdict spam from 0.6 on.
  The scenario \<open>BUY NOW!!! BUY NOW!!! BUY NOW!!! BUY NOW!!!\<close> scores 0.9 and is spam.
  The text \<open>buy now!! x x x x\<close> scores 0.6 and is spam. With the word \<open>constructor\<close>
  added to it the word \<open>x\<close> still occurs 4 times, but the count kept under the key
  \<open>constructor\<close> is not a number, the maximum of the counts is \<open>NaN\<close>, the 0.2 for the
  repeated word is not given, and the text scores 0.4 and is not spam.
\<close>

theorem spam_word_count_constructor:
  "spec_spamScore spamExample = 9 / 10 \<and> spamScore spamExample = 9 / 10 \<and>
   isSpam (detectSpam spamExample) \<and>
   spec_spamScore plainSpamExample = 6 / 10 \<and> spamScore plainSpamExample = 6 / 10 \<and>
   isSpam (detectSpam plainSpamExample) \<and>
   spec_spamScore constructorExample = 6 / 10 \<and> spamScore constructorExample = 4 / 10 \<and>
   \<not> isSpam (detectSpam constructorExample)"
proof -
  have a: "spamScore spamExample = 9 / 10"
    by (simp add: spamExample_def spam_eval char_eval rx_eval)
  have b: "spamScore plainSpamExample = 6 / 10"
    by (simp add: plainSpamExample_def spam_eval char_eval rx_eval)
  have c: "spamScore constructorExample = 4 / 10"
    by (simp add: constructorExample_def spam_eval char_eval rx_eval)
  have a': "spec_spamScore spamExample = 9 / 10"
    by (simp add: spec_spamScore_def spamExample_def wordRepeated_def split_whitespace_def
          spam_def char_eval)
  have b': "spec_spamScore plainSpamExample = 6 / 10"
    by (simp add: spec_spamScore_def plainSpamExample_def wordRepeated_def split_whitespace_def
          spam_def char_eval)
  have c': "spec_spamScore constructorExample = 6 / 10"
    by (simp add: spec_spamScore_def constructorExample_def wordRepeated_def
          split_whitespace_def spam_def char_eval)
  show ?thesis by (simp add: detectSpam_def a b c a' b' c')
qed

subsection \<open>sanitizeText\<close>

lemma hello_clean: "\<not> isViolation (moderateContent defaultConfig ''hello'')"
proof (rule moderateContent_clean)
  show "detectPhoneNumbers defaultConfig ''hello'' = []"
  proof (rule detectPhoneNumbers_none)
    show "\<forall>p \<in> set phonePatterns_standard. matchAll p 0 0 None ''hello'' = []"
      by (simp add: char_eval rx_eval phonePatterns_standard_def)
    show "\<forall>p \<in> set phonePatterns_international. matchAll p 0 0 None ''hello'' = []"
      by (simp add: char_eval rx_eval phonePatterns_international_def)
    show "\<forall>p \<in> set phonePatterns_disguised. matchAll p 0 0 None ''hello'' = []"
      by (simp add: char_eval rx_eval phonePatterns_disguised_def)
    show "detectSpelledPhoneNumbers ''hello'' = []"
      by (simp add: detectSpelledPhoneNumbers_def split_whitespace_def char_eval)
  qed
  show "ic_violations (detectInappropriateContent ''hello'') = []"
    by (simp add: wordlist_eval char_eval)
  show "spamScore ''hello'' < 6 / 10"
    by (simp add: spam_eval char_eval rx_eval)
qed

text \<open>
  C9. On every text for which the moderator with the default configuration reports no
  violation, \<open>sanitizeText\<close> returns the text unchanged.
\<close>

theorem sanitizeText_identity:
  "\<not> isViolation (moderateContent defaultConfig t) \<Longrightarrow> sanitizeText t = t"
  by (simp add: sanitizeText_def Let_def)

theorem sanitizeText_identity_witness:
  "\<not> isViolation (moderateContent defaultConfig ''hello'') \<and> sanitizeText ''hello'' = ''hello''"
  using sanitizeText_identity [OF hello_clean] hello_clean by simp

text \<open>On a text with a violation the flagged strings are starred out, whatever their case.\<close>

lemma sanitizeText_example: "sanitizeText ''You are Stupid'' = ''You are ******''"
proof -
  have phone: "detectPhoneNumbers cfg ''You are Stupid'' = []" for cfg
  proof (rule detectPhoneNumbers_none)
    show "\<forall>p \<in> set phonePatterns_standard. matchAll p 0 0 None ''You are Stupid'' = []"
      by (simp add: char_eval rx_eval phonePatterns_standard_def)
    show "\<forall>p \<in> set phonePatterns_international. matchAll p 0 0 None ''You are Stupid'' = []"
      by (simp add: char_eval rx_eval phonePatterns_international_def)
    show "\<forall>p \<in> set phonePatterns_disguised. matchAll p 0 0 None ''You are Stupid'' = []"
      by (simp add: char_eval rx_eval phonePatterns_disguised_def)
    show "detectSpelledPhoneNumbers ''You are Stupid'' = []"
      by (simp add: detectSpelledPhoneNumbers_def split_whitespace_def char_eval)
  qed
  have bad: "detectInappropriateContent ''You are Stupid'' =
      \<lparr> ic_violations = [''offensive''], ic_flaggedContent = [''stupid''], ic_confidence = 8 / 10 \<rparr>"
    by (simp add: wordlist_eval char_eval)
  have spam: "spamScore ''You are Stupid'' = 0"
    by (simp add: spam_eval char_eval rx_eval)
  have "moderateContent defaultConfig ''You are Stupid'' =
      \<lparr> isViolation = True, violationType = [''offensive''], result_confidence = 8 / 10,
        flaggedContent = [''stupid''], suggestions = [] \<rparr>"
    by (simp add: moderateContent_def phoneFindings_def inappropriateFindings_def
        spamFindings_def customFindings_def checkCustomBlockedWords_def defaultConfig_def
        detectSpam_def phone bad spam uniq_def generateSuggestions_def)
  then show ?thesis
    by (simp add: sanitizeText_def char_eval rx_eval)
qed

end
